theory Spec2Isabelle
  imports Complex_Main "HOL-Library.Multiset"
begin

section \<open>Errors and dictionaries\<close>

text \<open>
  A dictionary key such as \<^verbatim>\<open>'dW' + str(l)\<close> is the pair of its prefix and the layer
  number. A Python dict is an association list in insertion order with distinct keys.
\<close>

datatype key = Key string nat

datatype error =
    KeyError key
  | IndexError
  | ValueError
  | AssertionError
  | ZeroDivisionError
  | NameError string
  | LabelKeyError

type_synonym 'v dict = "(key \<times> 'v) list"

definition bnd :: "error + 'a \<Rightarrow> ('a \<Rightarrow> error + 'b) \<Rightarrow> error + 'b" where
  "bnd m f = (case m of Inl e \<Rightarrow> Inl e | Inr x \<Rightarrow> f x)"

definition dict_get :: "'v dict \<Rightarrow> key \<Rightarrow> error + 'v" where
  "dict_get d k = (case map_of d k of None \<Rightarrow> Inl (KeyError k) | Some v \<Rightarrow> Inr v)"

fun dict_set :: "'v dict \<Rightarrow> key \<Rightarrow> 'v \<Rightarrow> 'v dict" where
  "dict_set [] k v = [(k, v)]"
| "dict_set ((k', v') # d) k v =
     (if k' = k then (k, v) # d else (k', v') # dict_set d k v)"

definition list_get :: "'a list \<Rightarrow> nat \<Rightarrow> error + 'a" where
  "list_get xs i = (if i < length xs then Inr (xs ! i) else Inl IndexError)"

section \<open>Two-dimensional arrays\<close>

text \<open>
  An array of the array library with two axes: its shape and its rows. Entries are real
  numbers (or truth values for a mask); rounding, infinities and NaN are not modelled, so
  a division of an array by zero, which the library answers with inf or nan and a warning,
  is outside what the model tells.
\<close>

datatype 'a ndarray = NDArray (nrows: nat) (ncols: nat) (cells: "'a list list")

definition wf_array :: "'a ndarray \<Rightarrow> bool" where
  "wf_array A \<longleftrightarrow> length (cells A) = nrows A \<and> list_all (\<lambda>r. length r = ncols A) (cells A)"

definition item :: "'a ndarray \<Rightarrow> nat \<Rightarrow> nat \<Rightarrow> 'a" where
  "item A i j = cells A ! i ! j"

definition build :: "nat \<Rightarrow> nat \<Rightarrow> (nat \<Rightarrow> nat \<Rightarrow> 'a) \<Rightarrow> 'a ndarray" where
  "build r c f = NDArray r c (map (\<lambda>i. map (f i) [0..<c]) [0..<r])"

definition shape :: "'a ndarray \<Rightarrow> nat \<times> nat" where
  "shape A = (nrows A, ncols A)"

text \<open>Broadcasting of one axis: equal lengths, or one of them is 1.\<close>

definition bdim :: "nat \<Rightarrow> nat \<Rightarrow> nat option" where
  "bdim a b = (if a = b then Some a else if a = 1 then Some b else if b = 1 then Some a else None)"

definition bitem :: "'a ndarray \<Rightarrow> nat \<Rightarrow> nat \<Rightarrow> 'a" where
  "bitem A i j = item A (if nrows A = 1 then 0 else i) (if ncols A = 1 then 0 else j)"

definition bop :: "('a \<Rightarrow> 'b \<Rightarrow> 'c) \<Rightarrow> 'a ndarray \<Rightarrow> 'b ndarray \<Rightarrow> error + 'c ndarray" where
  "bop f A B =
     (case (bdim (nrows A) (nrows B), bdim (ncols A) (ncols B)) of
        (Some r, Some c) \<Rightarrow> Inr (build r c (\<lambda>i j. f (bitem A i j) (bitem B i j)))
      | _ \<Rightarrow> Inl ValueError)"

text \<open>An in-place operator (\<^verbatim>\<open>-=\<close>) also needs the result to have the shape of its target.\<close>

definition bop_inplace :: "('a \<Rightarrow> 'b \<Rightarrow> 'a) \<Rightarrow> 'a ndarray \<Rightarrow> 'b ndarray \<Rightarrow> error + 'a ndarray" where
  "bop_inplace f A B =
     bnd (bop f A B) (\<lambda>C. if shape C = shape A then Inr C else Inl ValueError)"

definition smap :: "('a \<Rightarrow> 'b) \<Rightarrow> 'a ndarray \<Rightarrow> 'b ndarray" where
  "smap f A = NDArray (nrows A) (ncols A) (map (map f) (cells A))"

definition dot :: "real ndarray \<Rightarrow> real ndarray \<Rightarrow> error + real ndarray" where
  "dot A B =
     (if ncols A = nrows B
      then Inr (build (nrows A) (ncols B)
                 (\<lambda>i j. sum_list (map (\<lambda>k. item A i k * item B k j) [0..<ncols A])))
      else Inl ValueError)"

definition transpose_arr :: "'a ndarray \<Rightarrow> 'a ndarray" where
  "transpose_arr A = build (ncols A) (nrows A) (\<lambda>i j. item A j i)"

definition sum_all :: "real ndarray \<Rightarrow> real" where
  "sum_all A = sum_list (map sum_list (cells A))"

definition sum_axis1 :: "real ndarray \<Rightarrow> real ndarray" where
  "sum_axis1 A = build (nrows A) 1 (\<lambda>i j. sum_list (cells A ! i))"

definition zeros :: "nat \<Rightarrow> nat \<Rightarrow> real ndarray" where
  "zeros r c = build r c (\<lambda>i j. 0)"

definition reshape :: "'a ndarray \<Rightarrow> nat \<times> nat \<Rightarrow> error + 'a ndarray" where
  "reshape A s =
     (if fst s * snd s = nrows A * ncols A
      then Inr (build (fst s) (snd s) (\<lambda>i j. concat (cells A) ! (i * snd s + j)))
      else Inl ValueError)"

definition slice_cols :: "'a ndarray \<Rightarrow> nat \<Rightarrow> nat \<Rightarrow> 'a ndarray" where
  "slice_cols A s e =
     (let s' = min s (ncols A); e' = min e (ncols A)
      in NDArray (nrows A) (e' - s') (map (\<lambda>r. take (e' - s') (drop s' r)) (cells A)))"

definition take_cols :: "'a ndarray \<Rightarrow> nat list \<Rightarrow> 'a ndarray" where
  "take_cols A js = build (nrows A) (length js) (\<lambda>i j. item A i (js ! j))"

definition get_item :: "'a ndarray \<Rightarrow> nat \<Rightarrow> nat \<Rightarrow> error + 'a" where
  "get_item A i j = (if i < nrows A \<and> j < ncols A then Inr (item A i j) else Inl IndexError)"

definition set_item :: "'a ndarray \<Rightarrow> nat \<Rightarrow> nat \<Rightarrow> 'a \<Rightarrow> error + 'a ndarray" where
  "set_item A i j x =
     (if i < nrows A \<and> j < ncols A
      then Inr (NDArray (nrows A) (ncols A) ((cells A)[i := (cells A ! i)[j := x]]))
      else Inl IndexError)"

section \<open>The random sources\<close>

text \<open>
  The generator of the array library serves \<^verbatim>\<open>randn\<close> and \<^verbatim>\<open>rand\<close>, the one of numpy
  serves \<^verbatim>\<open>permutation\<close>. Each is a position and the values it yields from any position
  on; a call reads its values and moves the position.
\<close>

record 'l rng =
  cp_normal :: "nat \<Rightarrow> real"
  cp_uniform :: "nat \<Rightarrow> real"
  cp_pos :: nat
  np_perm :: "nat \<Rightarrow> 'l list \<Rightarrow> 'l list"
  np_pos :: nat

definition randn :: "int \<Rightarrow> int \<Rightarrow> 'l rng \<Rightarrow> error + (real ndarray \<times> 'l rng)" where
  "randn r c g =
     (if r < 0 \<or> c < 0 then Inl ValueError
      else Inr (build (nat r) (nat c) (\<lambda>i j. cp_normal g (cp_pos g + i * nat c + j)),
                g\<lparr>cp_pos := cp_pos g + nat r * nat c\<rparr>))"

definition rand :: "int \<Rightarrow> nat \<Rightarrow> 'l rng \<Rightarrow> error + (real ndarray \<times> 'l rng)" where
  "rand r c g =
     (if r < 0 then Inl ValueError
      else Inr (build (nat r) c (\<lambda>i j. cp_uniform g (cp_pos g + i * c + j)),
                g\<lparr>cp_pos := cp_pos g + nat r * c\<rparr>))"

definition zeros_int :: "int \<Rightarrow> int \<Rightarrow> error + real ndarray" where
  "zeros_int r c = (if r < 0 \<or> c < 0 then Inl ValueError else Inr (zeros (nat r) (nat c)))"

definition random_permutation :: "'l list \<Rightarrow> 'l rng \<Rightarrow> 'l list \<times> 'l rng" where
  "random_permutation xs g = (np_perm g (np_pos g) xs, g\<lparr>np_pos := np_pos g + 1\<rparr>)"

section \<open>The class\<close>

record NeuralNet =
  layer_dims :: "int list"
  lr :: real
  num_epochs :: int
  lambd :: real
  beta :: real
  print_cost :: bool
  trained_params :: "real ndarray dict"
  fitted :: bool

definition NeuralNet_init :: "int list \<Rightarrow> real \<Rightarrow> int \<Rightarrow> real \<Rightarrow> real \<Rightarrow> bool \<Rightarrow> NeuralNet" where
  "NeuralNet_init dims rate epochs l2 momentum pr =
     \<lparr>layer_dims = dims, lr = rate, num_epochs = epochs, lambd = l2, beta = momentum,
      print_cost = pr, trained_params = [], fitted = False\<rparr>"

text \<open>
  The module reads two names it never binds, \<^verbatim>\<open>keep_prob\<close> and \<^verbatim>\<open>plt\<close>; what the
  module's namespace holds for them is a parameter. The file as it stands has neither.
\<close>

record module_globals =
  g_keep_prob :: "real list option"
  g_plt :: bool

section \<open>Cost\<close>

text \<open>
  The cost is computed over the reals: squares and products are exact, where the code's
  binary64 rounds and a small square may underflow to 0. The logarithm is the real logarithm,
  which the code's \<^verbatim>\<open>log\<close> follows only on positive arguments: at a prediction of 0 or 1 the
  code yields inf or nan, which the model does not represent. What is proved of the cost is
  stated for predictions strictly between 0 and 1 and does not rest on a product being
  non-zero.
\<close>

fun l2_loop :: "real ndarray dict \<Rightarrow> nat list \<Rightarrow> real \<Rightarrow> error + real" where
  "l2_loop parameters [] L2_norm = Inr L2_norm"
| "l2_loop parameters (l # ls) L2_norm =
     bnd (dict_get parameters (Key ''W'' (l + 1))) (\<lambda>W.
       l2_loop parameters ls (L2_norm + sum_all (smap (\<lambda>x. x * x) W)))"

definition cross_entropy_sum :: "real ndarray \<Rightarrow> real ndarray \<Rightarrow> error + real" where
  "cross_entropy_sum Y_true Y_pred =
     bnd (bop (*) Y_true (smap ln Y_pred)) (\<lambda>T1.
     bnd (bop (*) (smap (\<lambda>y. 1 - y) Y_true) (smap ln (smap (\<lambda>p. 1 - p) Y_pred))) (\<lambda>T2.
     bnd (bop (+) T1 T2) (\<lambda>S. Inr (sum_all S))))"

definition compute_cost ::
  "NeuralNet \<Rightarrow> real ndarray \<Rightarrow> real ndarray \<Rightarrow> real ndarray dict \<Rightarrow> error + real" where
  "compute_cost self Y_true Y_pred parameters =
     (let m = ncols Y_true; L = length parameters div 2 in
      if m = 0 then Inl ZeroDivisionError
      else
        bnd (cross_entropy_sum Y_true Y_pred) (\<lambda>S.
        let cross_entropy = - (1 / real m) * S in
        bnd (l2_loop parameters [0..<L] 0) (\<lambda>L2_norm.
        let L2_regularization = (lambd self / (2 * real m)) * L2_norm;
            J = cross_entropy + L2_regularization
        in Inr J)))"

section \<open>Activations\<close>

datatype activation = ReLU | Sigmoid | Leaky_ReLU

definition relu :: "real ndarray \<Rightarrow> real ndarray" where
  "relu Z = smap (\<lambda>z. max 0 z) Z"

definition leaky_relu :: "real ndarray \<Rightarrow> real ndarray" where
  "leaky_relu Z = smap (\<lambda>z. if z \<ge> 0 then z else z * (1 / 100)) Z"

definition sigmoid :: "real ndarray \<Rightarrow> real ndarray" where
  "sigmoid Z = smap (\<lambda>z. 1 / (1 + exp (- z))) Z"

definition relu_backward :: "real ndarray \<Rightarrow> real ndarray \<Rightarrow> error + real ndarray" where
  "relu_backward dA Z =
     (if shape Z \<noteq> shape dA then Inl IndexError
      else Inr (build (nrows dA) (ncols dA) (\<lambda>i j. if item Z i j \<le> 0 then 0 else item dA i j)))"

definition lrelu_backward :: "real ndarray \<Rightarrow> real ndarray \<Rightarrow> error + real ndarray" where
  "lrelu_backward dA Z =
     (let derivative = smap (\<lambda>z. if z \<ge> 0 then 1 else 1 / 100) Z
      in bop (*) dA derivative)"

definition sigmoid_derivative :: "real ndarray \<Rightarrow> error + real ndarray" where
  "sigmoid_derivative Z = bop (*) (sigmoid Z) (smap (\<lambda>s. 1 - s) (sigmoid Z))"

definition sigmoid_backward :: "real ndarray \<Rightarrow> real ndarray \<Rightarrow> error + real ndarray" where
  "sigmoid_backward dA Z = bnd (sigmoid_derivative Z) (\<lambda>d. bop (*) dA d)"

section \<open>Initialisation\<close>

fun init_params_loop ::
  "int list \<Rightarrow> nat list \<Rightarrow> real ndarray dict \<Rightarrow> 'l rng \<Rightarrow> error + (real ndarray dict \<times> 'l rng)" where
  "init_params_loop n [] params g = Inr (params, g)"
| "init_params_loop n (l # ls) params g =
     bnd (list_get n l) (\<lambda>nl.
     bnd (list_get n (l - 1)) (\<lambda>np.
     bnd (randn nl np g) (\<lambda>(R, g').
     bnd (zeros_int nl 1) (\<lambda>Zb.
       init_params_loop n ls
         (dict_set (dict_set params (Key ''W'' l) (smap (\<lambda>x. x * (1 / 1000)) R)) (Key ''b'' l) Zb)
         g'))))"

definition init_params :: "int list \<Rightarrow> 'l rng \<Rightarrow> error + (real ndarray dict \<times> 'l rng)" where
  "init_params n g = (let L = length n in init_params_loop n [1..<L] [] g)"

fun init_v_loop :: "int list \<Rightarrow> nat list \<Rightarrow> real ndarray dict \<Rightarrow> error + real ndarray dict" where
  "init_v_loop n [] v = Inr v"
| "init_v_loop n (l # ls) v =
     bnd (list_get n l) (\<lambda>nl.
     bnd (list_get n (l - 1)) (\<lambda>np.
     bnd (zeros_int nl np) (\<lambda>Zw.
     bnd (zeros_int nl 1) (\<lambda>Zb.
       init_v_loop n ls (dict_set (dict_set v (Key ''dW'' l) Zw) (Key ''db'' l) Zb)))))"

definition init_v :: "int list \<Rightarrow> error + real ndarray dict" where
  "init_v n = (let L = length n in init_v_loop n [1..<L] [])"

type_synonym dropout_params = "bool ndarray dict \<times> real list"

fun init_dropout_loop ::
  "NeuralNet \<Rightarrow> real list \<Rightarrow> nat \<Rightarrow> nat list \<Rightarrow> bool ndarray dict \<Rightarrow> 'l rng \<Rightarrow>
   error + (bool ndarray dict \<times> 'l rng)" where
  "init_dropout_loop self keep_prob m [] D g = Inr (D, g)"
| "init_dropout_loop self keep_prob m (l # ls) D g =
     bnd (list_get (layer_dims self) l) (\<lambda>nl.
     bnd (rand nl m g) (\<lambda>(U, g').
     bnd (list_get keep_prob l) (\<lambda>p.
       init_dropout_loop self keep_prob m ls (dict_set D (Key [] l) (smap (\<lambda>u. u < p) U)) g')))"

definition init_dropout ::
  "NeuralNet \<Rightarrow> real list \<Rightarrow> nat \<Rightarrow> 'l rng \<Rightarrow> error + (dropout_params \<times> 'l rng)" where
  "init_dropout self keep_prob m g =
     (let L = length (layer_dims self) in
      bnd (init_dropout_loop self keep_prob m [0..<L] [] g) (\<lambda>(D, g'). Inr ((D, keep_prob), g')))"

section \<open>Mini-batches\<close>

text \<open>
  The training data arrive as a data frame, whose columns carry labels, and a series
  indexed by labels. Selecting with a list of labels yields, for each label in turn, every
  position that carries it, and fails for a label that is absent.
\<close>

record 'l dataframe =
  columns :: "'l list"
  df_values :: "real ndarray"

record 'l series =
  index :: "'l list"
  sr_values :: "real list"

definition positions :: "'l list \<Rightarrow> 'l \<Rightarrow> nat list" where
  "positions ls p = filter (\<lambda>i. ls ! i = p) [0..<length ls]"

definition loc :: "'l list \<Rightarrow> 'l list \<Rightarrow> error + nat list" where
  "loc ls sel =
     (if list_ex (\<lambda>p. positions ls p = []) sel then Inl LabelKeyError
      else Inr (concat (map (positions ls) sel)))"

definition num_batches_of :: "nat \<Rightarrow> int \<Rightarrow> int" where
  "num_batches_of m mb_size = int m div mb_size"

text \<open>
  The permutation is drawn before any statement that can raise, so the generator has moved
  whether or not the call returns: the result is the outcome together with the generator.
\<close>

definition init_mini_batches ::
  "'l dataframe \<Rightarrow> 'l series \<Rightarrow> int \<Rightarrow> 'l rng \<Rightarrow>
   (error + (real ndarray \<times> real ndarray) list) \<times> 'l rng" where
  "init_mini_batches X y mb_size g =
     (let m = ncols (df_values X);
          (permutation, g') = random_permutation (columns X) g
      in
      (bnd (loc (columns X) permutation) (\<lambda>jsX.
       let shuffled_X = take_cols (df_values X) jsX in
       bnd (loc (index y) permutation) (\<lambda>jsy.
       bnd (reshape (NDArray 1 (length jsy) [map (\<lambda>j. sr_values y ! j) jsy]) (1, m)) (\<lambda>shuffled_y.
       if mb_size = 0 then Inl ZeroDivisionError
       else
         let num_batches = num_batches_of m mb_size;
             full = map (\<lambda>n. (slice_cols shuffled_X (n * nat mb_size) ((n + 1) * nat mb_size),
                                slice_cols shuffled_y (n * nat mb_size) ((n + 1) * nat mb_size)))
                        [0..<nat num_batches];
             mini_batches =
               (if int m mod mb_size \<noteq> 0
                then full @ [(slice_cols shuffled_X (nat (num_batches * mb_size)) (ncols shuffled_X),
                              slice_cols shuffled_y (nat (num_batches * mb_size)) (ncols shuffled_y))]
                else full)
         in Inr mini_batches))), g'))"

section \<open>Forward propagation\<close>

datatype mode = Train | Test

type_synonym linear_cache = "real ndarray \<times> real ndarray \<times> real ndarray"
type_synonym cache = "linear_cache \<times> real ndarray"

text \<open>
  Inverted dropout as the source writes it at each place:
  \<^verbatim>\<open>A = cp.multiply(A, D[str(i)]); A /= keep_prob[j]\<close>.
\<close>

definition dropout_scale ::
  "real ndarray \<Rightarrow> bool ndarray dict \<Rightarrow> nat \<Rightarrow> real list \<Rightarrow> nat \<Rightarrow> error + real ndarray" where
  "dropout_scale A D i keep_prob j =
     bnd (dict_get D (Key [] i)) (\<lambda>Di.
     bnd (bop (\<lambda>a d. a * (if d then 1 else 0)) A Di) (\<lambda>A'.
     bnd (list_get keep_prob j) (\<lambda>p.
       Inr (smap (\<lambda>a. a / p) A'))))"

text \<open>
  The assertion of \<^verbatim>\<open>linear_forward\<close> reads \<^verbatim>\<open>A\<close> of the enclosing function, which at
  each call is the array passed as \<^verbatim>\<open>A_prev\<close>.
\<close>

definition linear_forward ::
  "real ndarray \<Rightarrow> real ndarray \<Rightarrow> real ndarray \<Rightarrow> error + (real ndarray \<times> linear_cache)" where
  "linear_forward A_prev W b =
     bnd (dot W A_prev) (\<lambda>P.
     bnd (bop (+) P b) (\<lambda>Z.
       if shape Z \<noteq> (nrows W, ncols A_prev) then Inl AssertionError
       else Inr (Z, (A_prev, W, b))))"

definition activation_forward ::
  "real ndarray \<Rightarrow> real ndarray \<Rightarrow> real ndarray \<Rightarrow> activation \<Rightarrow> error + (real ndarray \<times> cache)" where
  "activation_forward A_prev W b act =
     bnd (linear_forward A_prev W b) (\<lambda>(Z, linear_cache).
       let A = (case act of ReLU \<Rightarrow> relu Z | Sigmoid \<Rightarrow> sigmoid Z | Leaky_ReLU \<Rightarrow> leaky_relu Z)
       in if shape A \<noteq> (nrows W, ncols A_prev) then Inl AssertionError
          else Inr (A, (linear_cache, Z)))"

fun forward_loop ::
  "real ndarray dict \<Rightarrow> dropout_params \<Rightarrow> mode \<Rightarrow> nat list \<Rightarrow> real ndarray \<Rightarrow> cache list \<Rightarrow>
   error + (real ndarray \<times> cache list)" where
  "forward_loop parameters dp md [] A caches = Inr (A, caches)"
| "forward_loop parameters dp md (l # ls) A caches =
     bnd (dict_get parameters (Key ''W'' l)) (\<lambda>W.
     bnd (dict_get parameters (Key ''b'' l)) (\<lambda>b.
     bnd (activation_forward A W b Leaky_ReLU) (\<lambda>(A1, cache).
     bnd (if md = Train then dropout_scale A1 (fst dp) l (snd dp) l else Inr A1) (\<lambda>A2.
       forward_loop parameters dp md ls A2 (caches @ [cache])))))"

definition L_model_forward ::
  "real ndarray \<Rightarrow> real ndarray dict \<Rightarrow> dropout_params \<Rightarrow> mode \<Rightarrow>
   error + (real ndarray \<times> cache list)" where
  "L_model_forward X parameters dp md =
     (let L = length parameters div 2 in
      bnd (forward_loop parameters dp md [1..<L] X []) (\<lambda>(A, caches).
      bnd (dict_get parameters (Key ''W'' L)) (\<lambda>W.
      bnd (dict_get parameters (Key ''b'' L)) (\<lambda>b.
      bnd (activation_forward A W b Sigmoid) (\<lambda>(AL1, cache).
      bnd (if md = Train then dropout_scale AL1 (fst dp) L (snd dp) L else Inr AL1) (\<lambda>AL.
        if shape AL \<noteq> (1, ncols X) then Inl AssertionError
        else Inr (AL, caches @ [cache])))))))"

section \<open>Backward propagation\<close>

definition linear_back ::
  "NeuralNet \<Rightarrow> real ndarray \<Rightarrow> linear_cache \<Rightarrow>
   error + (real ndarray \<times> real ndarray \<times> real ndarray)" where
  "linear_back self dZ cache =
     (case cache of (A_prev, W, b) \<Rightarrow>
        let m = ncols A_prev in
        bnd (dot dZ (transpose_arr A_prev)) (\<lambda>P.
        bnd (bop (+) (smap (\<lambda>x. x / real m) P)
                     (smap (\<lambda>x. x / real m) (smap (\<lambda>x. lambd self * x) W))) (\<lambda>dW.
        let db = smap (\<lambda>x. x / real m) (sum_axis1 dZ) in
        bnd (dot (transpose_arr W) dZ) (\<lambda>dA_prev.
        if shape dA_prev \<noteq> shape A_prev then Inl AssertionError
        else if shape dW \<noteq> shape W then Inl AssertionError
        else Inr (dA_prev, dW, db)))))"

definition activation_back ::
  "NeuralNet \<Rightarrow> real ndarray \<Rightarrow> cache \<Rightarrow> activation \<Rightarrow>
   error + (real ndarray \<times> real ndarray \<times> real ndarray)" where
  "activation_back self dA cache act =
     (case cache of (linear_cache, Z) \<Rightarrow>
        bnd (case act of ReLU \<Rightarrow> relu_backward dA Z
                       | Sigmoid \<Rightarrow> sigmoid_backward dA Z
                       | Leaky_ReLU \<Rightarrow> lrelu_backward dA Z) (\<lambda>dZ.
          linear_back self dZ linear_cache))"

fun backward_loop ::
  "NeuralNet \<Rightarrow> cache list \<Rightarrow> dropout_params \<Rightarrow> nat list \<Rightarrow> real ndarray dict \<Rightarrow>
   error + real ndarray dict" where
  "backward_loop self caches dp [] grads = Inr grads"
| "backward_loop self caches dp (l # ls) grads =
     bnd (dict_get grads (Key ''dA'' (l + 2))) (\<lambda>dA.
     bnd (list_get caches l) (\<lambda>cache.
     bnd (activation_back self dA cache Leaky_ReLU) (\<lambda>(dA_prev, dW, db).
     let grads1 = dict_set (dict_set (dict_set grads (Key ''dA'' (l + 1)) dA_prev)
                                     (Key ''dW'' (l + 1)) dW) (Key ''db'' (l + 1)) db in
     bnd (dict_get grads1 (Key ''dA'' (l + 1))) (\<lambda>G.
     bnd (dropout_scale G (fst dp) l (snd dp) (l + 1)) (\<lambda>G'.
       backward_loop self caches dp ls (dict_set grads1 (Key ''dA'' (l + 1)) G'))))))"

definition L_model_backward ::
  "NeuralNet \<Rightarrow> real ndarray \<Rightarrow> real ndarray \<Rightarrow> cache list \<Rightarrow> dropout_params \<Rightarrow>
   error + real ndarray dict" where
  "L_model_backward self AL Y0 caches dp =
     (let L = length caches in
      bnd (reshape Y0 (shape AL)) (\<lambda>Y.
      bnd (bop (/) Y AL) (\<lambda>Q1.
      bnd (bop (/) (smap (\<lambda>y. 1 - y) Y) (smap (\<lambda>a. 1 - a) AL)) (\<lambda>Q2.
      bnd (bop (-) Q1 Q2) (\<lambda>Q.
      bnd (dropout_scale (smap uminus Q) (fst dp) L (snd dp) L) (\<lambda>dAL.
      bnd (if caches = [] then Inl IndexError else Inr (last caches)) (\<lambda>cache.
      bnd (activation_back self dAL cache Sigmoid) (\<lambda>(dA_prev, dW, db).
      let grads = dict_set (dict_set (dict_set [] (Key ''dA'' L) dA_prev)
                                     (Key ''dW'' L) dW) (Key ''db'' L) db
      in backward_loop self caches dp (rev [0..<L - 1]) grads))))))))"

section \<open>Parameter update\<close>

fun update_loop ::
  "NeuralNet \<Rightarrow> real ndarray dict \<Rightarrow> real \<Rightarrow> nat list \<Rightarrow> real ndarray dict \<Rightarrow> real ndarray dict \<Rightarrow>
   error + (real ndarray dict \<times> real ndarray dict)" where
  "update_loop self grads rate [] parameters v = Inr (parameters, v)"
| "update_loop self grads rate (l # ls) parameters v =
     bnd (dict_get v (Key ''dW'' (l + 1))) (\<lambda>vW.
     bnd (dict_get grads (Key ''dW'' (l + 1))) (\<lambda>gW.
     bnd (bop (+) (smap (\<lambda>x. beta self * x) vW) (smap (\<lambda>x. (1 - beta self) * x) gW)) (\<lambda>vW'.
     let v1 = dict_set v (Key ''dW'' (l + 1)) vW' in
     bnd (dict_get v1 (Key ''db'' (l + 1))) (\<lambda>vb.
     bnd (dict_get grads (Key ''db'' (l + 1))) (\<lambda>gb.
     bnd (bop (+) (smap (\<lambda>x. beta self * x) vb) (smap (\<lambda>x. (1 - beta self) * x) gb)) (\<lambda>vb'.
     let v2 = dict_set v1 (Key ''db'' (l + 1)) vb' in
     bnd (dict_get parameters (Key ''W'' (l + 1))) (\<lambda>W.
     bnd (dict_get v2 (Key ''dW'' (l + 1))) (\<lambda>vW2.
     bnd (bop_inplace (-) W (smap (\<lambda>x. x * rate) vW2)) (\<lambda>W'.
     let parameters1 = dict_set parameters (Key ''W'' (l + 1)) W' in
     bnd (dict_get parameters1 (Key ''b'' (l + 1))) (\<lambda>b.
     bnd (dict_get v2 (Key ''db'' (l + 1))) (\<lambda>vb2.
     bnd (bop_inplace (-) b (smap (\<lambda>x. x * rate) vb2)) (\<lambda>b'.
       update_loop self grads rate ls (dict_set parameters1 (Key ''b'' (l + 1)) b') v2))))))))))))"

definition update_params ::
  "NeuralNet \<Rightarrow> real ndarray dict \<Rightarrow> real ndarray dict \<Rightarrow> real ndarray dict \<Rightarrow> real \<Rightarrow>
   error + (real ndarray dict \<times> real ndarray dict)" where
  "update_params self parameters grads v rate =
     (let L = length parameters div 2 in update_loop self grads rate [0..<L] parameters v)"

section \<open>Training and prediction\<close>

record 'l train_state =
  ts_parameters :: "real ndarray dict"
  ts_v :: "real ndarray dict"
  ts_cost :: "real option"
  ts_costs :: "real list"
  ts_rng :: "'l rng"

definition train_batch ::
  "module_globals \<Rightarrow> NeuralNet \<Rightarrow> real ndarray \<times> real ndarray \<Rightarrow> 'l train_state \<Rightarrow>
   error + 'l train_state" where
  "train_batch env self mini_batch st =
     (case mini_batch of (X_train, Y_train) \<Rightarrow>
      bnd (case g_keep_prob env of None \<Rightarrow> Inl (NameError ''keep_prob'') | Some kp \<Rightarrow> Inr kp)
        (\<lambda>keep_prob.
      bnd (init_dropout self keep_prob (ncols X_train) (ts_rng st)) (\<lambda>(dp, g').
      bnd (L_model_forward X_train (ts_parameters st) dp Train) (\<lambda>(AL, caches).
      bnd (compute_cost self Y_train AL (ts_parameters st)) (\<lambda>cost.
      bnd (L_model_backward self AL Y_train caches dp) (\<lambda>grads.
      bnd (update_params self (ts_parameters st) grads (ts_v st) (lr self)) (\<lambda>(parameters, v).
        Inr (st\<lparr>ts_parameters := parameters, ts_v := v, ts_cost := Some cost,
                 ts_rng := g'\<rparr>))))))))"

fun batch_loop ::
  "module_globals \<Rightarrow> NeuralNet \<Rightarrow> (real ndarray \<times> real ndarray) list \<Rightarrow> 'l train_state \<Rightarrow>
   error + 'l train_state" where
  "batch_loop env self [] st = Inr st"
| "batch_loop env self (mb # mbs) st =
     bnd (train_batch env self mb st) (\<lambda>st'. batch_loop env self mbs st')"

fun epoch_loop ::
  "module_globals \<Rightarrow> NeuralNet \<Rightarrow> (real ndarray \<times> real ndarray) list \<Rightarrow> nat list \<Rightarrow>
   'l train_state \<Rightarrow> error + 'l train_state" where
  "epoch_loop env self mini_batches [] st = Inr st"
| "epoch_loop env self mini_batches (i # rest) st =
     bnd (batch_loop env self mini_batches st) (\<lambda>st1.
     bnd (if print_cost self \<and> i mod 10 = 0
          then (case ts_cost st1 of None \<Rightarrow> Inl (NameError ''cost'')
                | Some cost \<Rightarrow> Inr (st1\<lparr>ts_costs := ts_costs st1 @ [cost]\<rparr>))
          else Inr st1) (\<lambda>st2.
       epoch_loop env self mini_batches rest st2))"

text \<open>
  \<^verbatim>\<open>fit\<close> may raise after it has used numpy's generator, which only \<^verbatim>\<open>init_mini_batches\<close>
  touches. Its result is the outcome together with the position of numpy's generator when the
  call ends, by return or by exception.
\<close>

definition fit ::
  "module_globals \<Rightarrow> NeuralNet \<Rightarrow> 'l dataframe \<Rightarrow> 'l series \<Rightarrow> int \<Rightarrow> 'l rng \<Rightarrow>
   (error + (real ndarray dict \<times> NeuralNet \<times> 'l rng)) \<times> nat" where
  "fit env self X_train Y_train mb_size g =
     (case init_params (layer_dims self) g of
        Inl e \<Rightarrow> (Inl e, np_pos g)
      | Inr (parameters, g1) \<Rightarrow>
     (case init_v (layer_dims self) of
        Inl e \<Rightarrow> (Inl e, np_pos g1)
      | Inr v \<Rightarrow>
     (case init_mini_batches X_train Y_train mb_size g1 of
        (Inl e, g2) \<Rightarrow> (Inl e, np_pos g2)
      | (Inr mini_batches, g2) \<Rightarrow>
        (bnd (epoch_loop env self mini_batches [0..<nat (num_epochs self)]
               \<lparr>ts_parameters = parameters, ts_v = v, ts_cost = None, ts_costs = [],
                ts_rng = g2\<rparr>) (\<lambda>st.
           if \<not> g_plt env then Inl (NameError ''plt'')
           else Inr (ts_parameters st,
                     self\<lparr>trained_params := ts_parameters st, fitted := True\<rparr>,
                     ts_rng st)),
         np_pos g2))))"

fun predict_loop ::
  "real ndarray \<Rightarrow> nat list \<Rightarrow> real ndarray \<Rightarrow> error + real ndarray" where
  "predict_loop probas [] y = Inr y"
| "predict_loop probas (i # rest) y =
     bnd (get_item probas 0 i) (\<lambda>p.
     bnd (if p > 1 / 2 then set_item y 0 i 1 else set_item y 0 i 0) (\<lambda>y'.
       predict_loop probas rest y'))"

definition predict :: "NeuralNet \<Rightarrow> real ndarray \<Rightarrow> error + (real ndarray \<times> real ndarray)" where
  "predict self X =
     (let m = ncols X; y = zeros 1 m in
      bnd (L_model_forward X (trained_params self) ([], []) Test) (\<lambda>(probas, caches).
      bnd (predict_loop probas [0..<ncols probas] y) (\<lambda>y'.
        Inr (y', probas))))"

section \<open>Concrete inputs\<close>

text \<open>A generator that yields zeros and reverses what it is asked to permute.\<close>

definition rng0 :: "nat rng" where
  "rng0 = \<lparr>cp_normal = (\<lambda>k. 0), cp_uniform = (\<lambda>k. 0), cp_pos = 0,
           np_perm = (\<lambda>k xs. rev xs), np_pos = 0\<rparr>"

text \<open>A trained network of one sigmoid unit with weight 1 and bias 0.\<close>

definition net1 :: NeuralNet where
  "net1 = (NeuralNet_init [1, 1] 1 1 0 0 False)
            \<lparr>trained_params := [(Key ''W'' 1, NDArray 1 1 [[1]]), (Key ''b'' 1, NDArray 1 1 [[0]])],
             fitted := True\<rparr>"

section \<open>The cost as the specification writes it\<close>

text \<open>
  The cross-entropy of labels and predictions of shape \<open>(1, m)\<close>, the squared Frobenius
  norm of a matrix, and the sum of those norms over the weight matrices \<open>W1 \<dots> WL\<close>.
\<close>

definition cross_entropy_spec :: "real ndarray \<Rightarrow> real ndarray \<Rightarrow> real" where
  "cross_entropy_spec Y P =
     - (1 / real (ncols Y)) *
       (\<Sum>i<ncols Y. item Y 0 i * ln (item P 0 i) + (1 - item Y 0 i) * ln (1 - item P 0 i))"

definition frobenius_sq :: "real ndarray \<Rightarrow> real" where
  "frobenius_sq W = (\<Sum>i<nrows W. \<Sum>j<ncols W. (item W i j)\<^sup>2)"

definition weight :: "real ndarray dict \<Rightarrow> nat \<Rightarrow> real ndarray" where
  "weight parameters l = the (map_of parameters (Key ''W'' l))"

definition l2_spec :: "real ndarray dict \<Rightarrow> real" where
  "l2_spec parameters = (\<Sum>l = 1..length parameters div 2. frobenius_sq (weight parameters l))"

definition has_weights :: "real ndarray dict \<Rightarrow> bool" where
  "has_weights parameters \<longleftrightarrow>
     (\<forall>l\<in>{1..length parameters div 2}.
        \<exists>W. map_of parameters (Key ''W'' l) = Some W \<and> wf_array W)"

definition params_zero :: "real ndarray dict" where
  "params_zero = [(Key ''W'' 1, NDArray 1 1 [[0]]), (Key ''b'' 1, NDArray 1 1 [[0]])]"

definition params_one :: "real ndarray dict" where
  "params_one = [(Key ''W'' 1, NDArray 1 1 [[1]]), (Key ''b'' 1, NDArray 1 1 [[0]])]"

section \<open>The momentum update as the specification writes it\<close>

text \<open>
  Entry by entry: the new momentum \<open>beta \<cdot> momentum + (1 - beta) \<cdot> gradient\<close>, and the new
  parameter \<open>parameter - momentum \<cdot> rate\<close>. A layer is ready for the update when the three
  stores hold its weight and bias entries with equal shapes.
\<close>

definition momentum_spec :: "real \<Rightarrow> real ndarray \<Rightarrow> real ndarray \<Rightarrow> real ndarray" where
  "momentum_spec bt V G =
     build (nrows V) (ncols V) (\<lambda>i j. bt * item V i j + (1 - bt) * item G i j)"

definition descent_spec :: "real \<Rightarrow> real ndarray \<Rightarrow> real ndarray \<Rightarrow> real ndarray" where
  "descent_spec rate W V = build (nrows W) (ncols W) (\<lambda>i j. item W i j - item V i j * rate)"

definition entry :: "'v dict \<Rightarrow> string \<Rightarrow> nat \<Rightarrow> 'v" where
  "entry d name l = the (map_of d (Key name l))"

definition store_ready :: "real ndarray dict \<Rightarrow> real ndarray dict \<Rightarrow> string \<Rightarrow> string \<Rightarrow> nat \<Rightarrow> bool" where
  "store_ready d e name name' l \<longleftrightarrow>
     (\<exists>A B. map_of d (Key name l) = Some A \<and> map_of e (Key name' l) = Some B \<and>
            wf_array A \<and> wf_array B \<and> shape A = shape B)"

definition layer_ready ::
  "real ndarray dict \<Rightarrow> real ndarray dict \<Rightarrow> real ndarray dict \<Rightarrow> nat \<Rightarrow> bool" where
  "layer_ready parameters grads v l \<longleftrightarrow>
     store_ready parameters v ''W'' ''dW'' l \<and> store_ready v grads ''dW'' ''dW'' l \<and>
     store_ready parameters v ''b'' ''db'' l \<and> store_ready v grads ''db'' ''db'' l"

definition updated ::
  "NeuralNet \<Rightarrow> real \<Rightarrow> real ndarray dict \<Rightarrow> real ndarray dict \<Rightarrow> real ndarray dict \<Rightarrow> nat set \<Rightarrow>
   real ndarray dict \<Rightarrow> real ndarray dict \<Rightarrow> bool" where
  "updated self rate parameters grads v S parameters' v' \<longleftrightarrow>
     map fst parameters' = map fst parameters \<and> map fst v' = map fst v \<and>
     (\<forall>l\<in>S.
        map_of v' (Key ''dW'' l) =
          Some (momentum_spec (beta self) (entry v ''dW'' l) (entry grads ''dW'' l)) \<and>
        map_of v' (Key ''db'' l) =
          Some (momentum_spec (beta self) (entry v ''db'' l) (entry grads ''db'' l)) \<and>
        map_of parameters' (Key ''W'' l) =
          Some (descent_spec rate (entry parameters ''W'' l) (entry v' ''dW'' l)) \<and>
        map_of parameters' (Key ''b'' l) =
          Some (descent_spec rate (entry parameters ''b'' l) (entry v' ''db'' l))) \<and>
     (\<forall>k. (\<forall>l\<in>S. k \<noteq> Key ''dW'' l \<and> k \<noteq> Key ''db'' l) \<longrightarrow> map_of v' k = map_of v k) \<and>
     (\<forall>k. (\<forall>l\<in>S. k \<noteq> Key ''W'' l \<and> k \<noteq> Key ''b'' l) \<longrightarrow>
          map_of parameters' k = map_of parameters k)"

definition v_zero :: "real ndarray dict" where
  "v_zero = [(Key ''dW'' 1, NDArray 1 1 [[0]]), (Key ''db'' 1, NDArray 1 1 [[0]])]"

definition grads_one :: "real ndarray dict" where
  "grads_one = [(Key ''dA'' 1, NDArray 1 1 [[7]]), (Key ''dW'' 1, NDArray 1 1 [[2]]),
                (Key ''db'' 1, NDArray 1 1 [[4]])]"

section \<open>The mask that keeps every unit\<close>

definition keep_all :: "nat \<Rightarrow> nat \<Rightarrow> bool ndarray" where
  "keep_all r c = build r c (\<lambda>i j. True)"

section \<open>Columns, and the partition as the specification writes it\<close>

text \<open>
  The columns of an array in order, the first position of a label, the two arrays reordered
  by a list of labels, and the contiguous chunks of \<open>b\<close> columns with a last chunk for the
  remainder. \<open>frame3\<close> and \<open>series3\<close> are three labelled examples with two features.
\<close>

definition column :: "'a ndarray \<Rightarrow> nat \<Rightarrow> 'a list" where
  "column A j = map (\<lambda>i. item A i j) [0..<nrows A]"

definition cols_of :: "'a ndarray \<Rightarrow> 'a list list" where
  "cols_of A = map (column A) [0..<ncols A]"

definition pos_of :: "'l list \<Rightarrow> 'l \<Rightarrow> nat" where
  "pos_of ls c = length (takeWhile (\<lambda>x. x \<noteq> c) ls)"

definition shuffled_X_spec :: "'l dataframe \<Rightarrow> 'l list \<Rightarrow> real ndarray" where
  "shuffled_X_spec X p = take_cols (df_values X) (map (pos_of (columns X)) p)"

definition shuffled_y_spec :: "'l series \<Rightarrow> 'l list \<Rightarrow> real ndarray" where
  "shuffled_y_spec y p = build 1 (length p) (\<lambda>i j. sr_values y ! pos_of (index y) (p ! j))"

definition batches_spec ::
  "real ndarray \<Rightarrow> real ndarray \<Rightarrow> nat \<Rightarrow> (real ndarray \<times> real ndarray) list" where
  "batches_spec SX Sy b =
     map (\<lambda>n. (slice_cols SX (n * b) ((n + 1) * b), slice_cols Sy (n * b) ((n + 1) * b)))
         [0..<ncols SX div b] @
     (if ncols SX mod b \<noteq> 0
      then [(slice_cols SX (ncols SX div b * b) (ncols SX),
             slice_cols Sy (ncols SX div b * b) (ncols Sy))]
      else [])"

definition frame3 :: "nat dataframe" where
  "frame3 = \<lparr>columns = [10, 20, 30], df_values = NDArray 2 3 [[1, 2, 3], [4, 5, 6]]\<rparr>"

definition series3 :: "nat series" where
  "series3 = \<lparr>index = [20, 10, 30], sr_values = [0, 1, 1]\<rparr>"

section \<open>A network of three layers with one unit each\<close>

text \<open>
  All weights are 1 and all biases 0. The masks keep every unit except the unit of layer 2;
  the keep probabilities of layers 0 to 3 are 1, 1/2, 1/4 and 1. \<open>caches3\<close> is what forward
  propagation caches on the input 1, \<open>grads3\<close> what backward propagation then returns for
  the label 1.
\<close>

definition net3 :: NeuralNet where
  "net3 = NeuralNet_init [1, 1, 1, 1] 1 1 0 0 False"

definition params3 :: "real ndarray dict" where
  "params3 = [(Key ''W'' 1, NDArray 1 1 [[1]]), (Key ''b'' 1, NDArray 1 1 [[0]]),
              (Key ''W'' 2, NDArray 1 1 [[1]]), (Key ''b'' 2, NDArray 1 1 [[0]]),
              (Key ''W'' 3, NDArray 1 1 [[1]]), (Key ''b'' 3, NDArray 1 1 [[0]])]"

definition dropout3 :: dropout_params where
  "dropout3 = ([(Key [] 0, NDArray 1 1 [[True]]), (Key [] 1, NDArray 1 1 [[True]]),
                (Key [] 2, NDArray 1 1 [[False]]), (Key [] 3, NDArray 1 1 [[True]])],
               [1, 1 / 2, 1 / 4, 1])"

definition caches3 :: "cache list" where
  "caches3 = [((NDArray 1 1 [[1]], NDArray 1 1 [[1]], NDArray 1 1 [[0]]), NDArray 1 1 [[1]]),
              ((NDArray 1 1 [[2]], NDArray 1 1 [[1]], NDArray 1 1 [[0]]), NDArray 1 1 [[2]]),
              ((NDArray 1 1 [[0]], NDArray 1 1 [[1]], NDArray 1 1 [[0]]), NDArray 1 1 [[0]])]"

definition grads3 :: "real ndarray dict" where
  "grads3 = [(Key ''dA'' 3, NDArray 1 1 [[- 1 / 2]]), (Key ''dW'' 3, NDArray 1 1 [[0]]),
             (Key ''db'' 3, NDArray 1 1 [[- 1 / 2]]),
             (Key ''dA'' 2, NDArray 1 1 [[- 2]]), (Key ''dW'' 2, NDArray 1 1 [[- 1]]),
             (Key ''db'' 2, NDArray 1 1 [[- 1 / 2]]),
             (Key ''dA'' 1, NDArray 1 1 [[- 4]]), (Key ''dW'' 1, NDArray 1 1 [[- 2]]),
             (Key ''db'' 1, NDArray 1 1 [[- 2]])]"

section \<open>A training run of two epochs\<close>

text \<open>
  A module namespace that binds \<^verbatim>\<open>keep_prob\<close> to \<open>[1, 1]\<close> and \<^verbatim>\<open>plt\<close>; a network of one
  sigmoid unit with learning rate 0 and two epochs; two labelled examples with one feature.
  \<open>st_at\<close> is the state of the training loop between batches, \<open>rng_after\<close> the generator
  after the run.
\<close>

definition env0 :: module_globals where
  "env0 = \<lparr>g_keep_prob = Some [1, 1], g_plt = True\<rparr>"

definition net2e :: NeuralNet where
  "net2e = NeuralNet_init [1, 1] 0 2 0 0 False"

definition frame2 :: "nat dataframe" where
  "frame2 = \<lparr>columns = [10, 20], df_values = NDArray 1 2 [[0, 0]]\<rparr>"

definition series2 :: "nat series" where
  "series2 = \<lparr>index = [10, 20], sr_values = [1, 0]\<rparr>"

definition st_at :: "real \<Rightarrow> real option \<Rightarrow> nat \<Rightarrow> nat train_state" where
  "st_at d c k = \<lparr>ts_parameters = params_zero,
      ts_v = [(Key ''dW'' 1, NDArray 1 1 [[0]]), (Key ''db'' 1, NDArray 1 1 [[d]])],
      ts_cost = c, ts_costs = [], ts_rng = rng0\<lparr>cp_pos := k, np_pos := 1\<rparr>\<rparr>"

definition rng_after :: "nat rng" where
  "rng_after = rng0\<lparr>cp_pos := 9, np_pos := 1\<rparr>"

text \<open>
  A frame with one label on two columns, a series indexed by three distinct labels, and a
  series whose index lacks the label 30.
\<close>

definition frame_dup :: "nat dataframe" where
  "frame_dup = \<lparr>columns = [10, 10, 20], df_values = NDArray 1 3 [[1, 2, 3]]\<rparr>"

definition series_plain :: "nat series" where
  "series_plain = \<lparr>index = [10, 20, 30], sr_values = [1, 0, 1]\<rparr>"

definition series_other :: "nat series" where
  "series_other = \<lparr>index = [10, 20, 40], sr_values = [1, 0, 1]\<rparr>"

text \<open>
  The module as the repository has it binds neither \<^verbatim>\<open>keep_prob\<close> nor \<^verbatim>\<open>plt\<close>. A frame and
  a series with no example.
\<close>

definition module_as_shipped :: module_globals where
  "module_as_shipped = \<lparr>g_keep_prob = None, g_plt = False\<rparr>"

definition frame_none :: "nat dataframe" where
  "frame_none = \<lparr>columns = [], df_values = NDArray 1 0 [[]]\<rparr>"

definition series_none :: "nat series" where
  "series_none = \<lparr>index = [], sr_values = []\<rparr>"

section \<open>Facts about arrays\<close>

lemma bnd_Inr [simp]: "bnd (Inr x) f = f x"
  by (simp add: bnd_def)

lemma bnd_Inl [simp]: "bnd (Inl e) f = Inl e"
  by (simp add: bnd_def)

lemma nrows_build [simp]: "nrows (build r c f) = r"
  by (simp add: build_def)

lemma ncols_build [simp]: "ncols (build r c f) = c"
  by (simp add: build_def)

lemma item_build [simp]: "i < r \<Longrightarrow> j < c \<Longrightarrow> item (build r c f) i j = f i j"
  by (simp add: build_def item_def)

lemma wf_build [simp]: "wf_array (build r c f)"
  by (simp add: build_def wf_array_def list_all_iff)

lemma shape_build [simp]: "shape (build r c f) = (r, c)"
  by (simp add: shape_def)

lemma nrows_smap [simp]: "nrows (smap f A) = nrows A"
  by (simp add: smap_def)

lemma ncols_smap [simp]: "ncols (smap f A) = ncols A"
  by (simp add: smap_def)

lemma shape_smap [simp]: "shape (smap f A) = shape A"
  by (simp add: shape_def)

lemma wf_smap [simp]: "wf_array A \<Longrightarrow> wf_array (smap f A)"
  by (simp add: smap_def wf_array_def list_all_iff)

lemma item_smap [simp]:
  "wf_array A \<Longrightarrow> i < nrows A \<Longrightarrow> j < ncols A \<Longrightarrow> item (smap f A) i j = f (item A i j)"
  by (simp add: smap_def wf_array_def item_def list_all_iff)

lemma row_sum_items:
  "wf_array A \<Longrightarrow> i < nrows A \<Longrightarrow> sum_list (cells A ! i) = (\<Sum>k<ncols A. item A i k)"
proof -
  assume a: "wf_array A" "i < nrows A"
  then have len: "length (cells A ! i) = ncols A"
    by (simp add: wf_array_def list_all_iff)
  have "cells A ! i = map (\<lambda>k. cells A ! i ! k) [0..<ncols A]"
    using len by (metis map_nth)
  then have "sum_list (cells A ! i) = sum_list (map (\<lambda>k. item A i k) [0..<ncols A])"
    by (simp add: item_def)
  then show ?thesis
    by (simp add: interv_sum_list_conv_sum_set_nat atLeast0LessThan)
qed

lemma bop_same_shape:
  "nrows A = nrows B \<Longrightarrow> ncols A = ncols B \<Longrightarrow>
   bop f A B = Inr (build (nrows A) (ncols A) (\<lambda>i j. f (bitem A i j) (bitem B i j)))"
  by (simp add: bop_def bdim_def)

lemma bitem_item: "i < nrows A \<Longrightarrow> j < ncols A \<Longrightarrow> bitem A i j = item A i j"
  by (auto simp: bitem_def)

section \<open>The linear step of backward propagation\<close>

text \<open>
  C7. Given \<open>dZ\<close> and the cached \<open>A_prev\<close>, \<open>W\<close>, \<open>b\<close> of a layer, with \<open>m\<close> the number of
  columns of \<open>A_prev\<close>, the linear backward step returns
  \<open>dW = (dZ \<cdot> A_prev\<^sup>T)/m + (lambd \<cdot> W)/m\<close>, \<open>db\<close> the sum of \<open>dZ\<close> over the examples divided by
  \<open>m\<close>, and \<open>dA_prev = W\<^sup>T \<cdot> dZ\<close>, entry by entry, for arrays whose shapes fit a layer with
  at least one example.
\<close>

theorem linear_back_formulas:
  assumes "wf_array dZ" and "wf_array A_prev" and "wf_array W"
    and "ncols dZ = ncols A_prev" and "nrows dZ = nrows W" and "ncols W = nrows A_prev"
    and "0 < ncols A_prev"
  shows "\<exists>dA_prev dW db.
     linear_back self dZ (A_prev, W, b) = Inr (dA_prev, dW, db) \<and>
     wf_array dW \<and> shape dW = shape W \<and>
     (\<forall>i<nrows W. \<forall>j<ncols W.
        item dW i j = (\<Sum>k<ncols A_prev. item dZ i k * item A_prev j k) / real (ncols A_prev)
                      + (lambd self * item W i j) / real (ncols A_prev)) \<and>
     wf_array db \<and> shape db = (nrows W, 1) \<and>
     (\<forall>i<nrows W. item db i 0 = (\<Sum>k<ncols A_prev. item dZ i k) / real (ncols A_prev)) \<and>
     wf_array dA_prev \<and> shape dA_prev = shape A_prev \<and>
     (\<forall>i<nrows A_prev. \<forall>j<ncols A_prev.
        item dA_prev i j = (\<Sum>k<nrows W. item W k i * item dZ k j))"
proof -
  let ?m = "ncols A_prev"
  let ?P = "build (nrows dZ) (nrows A_prev)
              (\<lambda>i j. sum_list (map (\<lambda>k. item dZ i k * item (transpose_arr A_prev) k j) [0..<ncols dZ]))"
  let ?R = "smap (\<lambda>x. x / real ?m) (smap (\<lambda>x. lambd self * x) W)"
  let ?dW = "build (nrows W) (ncols W)
               (\<lambda>i j. bitem (smap (\<lambda>x. x / real ?m) ?P) i j + bitem ?R i j)"
  let ?db = "smap (\<lambda>x. x / real ?m) (sum_axis1 dZ)"
  let ?dA = "build (ncols W) (ncols dZ)
               (\<lambda>i j. sum_list (map (\<lambda>k. item (transpose_arr W) i k * item dZ k j) [0..<nrows W]))"
  have dot1: "dot dZ (transpose_arr A_prev) = Inr ?P"
    using assms by (simp add: dot_def transpose_arr_def)
  have add: "bop (+) (smap (\<lambda>x. x / real ?m) ?P) ?R = Inr ?dW"
    using assms by (simp add: bop_same_shape)
  have dot2: "dot (transpose_arr W) dZ = Inr ?dA"
    using assms by (simp add: dot_def transpose_arr_def)
  have run: "linear_back self dZ (A_prev, W, b) = Inr (?dA, ?dW, ?db)"
  proof -
    have "shape ?dA = shape A_prev" "shape ?dW = shape W"
      using assms by (simp_all add: shape_def)
    then show ?thesis
      by (simp only: linear_back_def prod.case Let_def dot1 add dot2 bnd_Inr) simp
  qed
  have dW: "item ?dW i j = (\<Sum>k<?m. item dZ i k * item A_prev j k) / real ?m
                      + (lambd self * item W i j) / real ?m"
    if "i < nrows W" "j < ncols W" for i j
  proof -
    have "item ?P i j = (\<Sum>k<?m. item dZ i k * item A_prev j k)"
      using that assms
      by (simp add: transpose_arr_def interv_sum_list_conv_sum_set_nat atLeast0LessThan)
    then show ?thesis
      using that assms by (simp add: bitem_item)
  qed
  have db: "item ?db i 0 = (\<Sum>k<?m. item dZ i k) / real ?m" if "i < nrows W" for i
    using that assms by (simp add: sum_axis1_def row_sum_items)
  have dA: "item ?dA i j = (\<Sum>k<nrows W. item W k i * item dZ k j)"
    if "i < nrows A_prev" "j < ncols A_prev" for i j
    using that assms
    by (simp add: transpose_arr_def interv_sum_list_conv_sum_set_nat atLeast0LessThan)
  have shapes: "wf_array ?dW" "shape ?dW = shape W" "wf_array ?db" "shape ?db = (nrows W, 1)"
    "wf_array ?dA" "shape ?dA = shape A_prev"
    using assms by (simp_all add: shape_def sum_axis1_def)
  show ?thesis
    using run dW db dA shapes by blast
qed

text \<open>The theorem at a layer with one unit, one input and two examples.\<close>

theorem linear_back_formulas_witness:
  "\<exists>dA dW db.
     linear_back (NeuralNet_init [2, 1] 1 1 1 1 False) (NDArray 1 2 [[1, 2]])
       (NDArray 1 2 [[3, 4]], NDArray 1 1 [[5]], NDArray 1 1 [[0]]) = Inr (dA, dW, db) \<and>
     item dW 0 0 = 8 \<and> item db 0 0 = 3 / 2 \<and> item dA 0 1 = 10"
proof -
  have "wf_array (NDArray 1 2 [[1, 2::real]])" "wf_array (NDArray 1 2 [[3, 4::real]])"
    "wf_array (NDArray 1 1 [[5::real]])"
    by (simp_all add: wf_array_def)
  from linear_back_formulas [OF this, of "NeuralNet_init [2, 1] 1 1 1 1 False" "NDArray 1 1 [[0]]"]
  show ?thesis
    by (auto simp: item_def lessThan_Suc eval_nat_numeral All_less_Suc NeuralNet_init_def)
qed

section \<open>Parameter initialisation on short layer lists\<close>

text \<open>
  C3, as stated: parameter initialisation raises for every \<open>layer_dims\<close> with fewer than
  two entries. It does not: on the one-entry list \<open>[3]\<close> it returns the empty dictionary.
\<close>

theorem init_params_short_counterexample:
  "length [3::int] < 2 \<and> init_params [3] rng0 = Inr ([], rng0)"
  by (simp add: init_params_def)

text \<open>
  C3, amended: \<open>init_params\<close> has no check of the length. For every \<open>layer_dims\<close> with
  fewer than two entries its loop body never runs, and it returns the empty dictionary
  without drawing a random number.
\<close>

theorem init_params_short_returns:
  "length n < 2 \<Longrightarrow> init_params n g = Inr ([], g)"
  by (cases n) (simp_all add: init_params_def)

theorem init_params_short_returns_witness:
  "length ([]::int list) < 2 \<and> init_params [] rng0 = Inr ([], rng0)"
  using init_params_short_returns [of "[]" rng0] by simp

section \<open>Prediction\<close>

text \<open>
  C4. On an object as the constructor leaves it, \<open>trained_params\<close> is the empty dictionary
  (\<open>fit\<close> assigns it only in its last statements), so \<open>predict\<close> raises the KeyError of the
  lookup of \<^verbatim>\<open>'W0'\<close> for every input and returns neither labels nor probabilities.
\<close>

theorem predict_untrained_raises:
  "predict (NeuralNet_init dims rate epochs l2 momentum pr) X = Inl (KeyError (Key ''W'' 0))"
  by (simp add: predict_def NeuralNet_init_def L_model_forward_def dict_get_def)

lemma predict_loop_result:
  assumes "wf_array y" and "nrows y = 1" and "nrows probas = 1"
    and "\<forall>i\<in>set js. i < ncols y \<and> i < ncols probas"
  shows "\<exists>y'. predict_loop probas js y = Inr y' \<and> wf_array y' \<and> shape y' = shape y \<and>
     (\<forall>i<ncols y. item y' 0 i =
        (if i \<in> set js then (if item probas 0 i > 1 / 2 then 1 else 0) else item y 0 i))"
  using assms
proof (induction js arbitrary: y)
  case Nil
  then show ?case by simp
next
  case (Cons j js)
  let ?x = "if item probas 0 j > 1 / 2 then 1 else 0 :: real"
  let ?y1 = "NDArray (nrows y) (ncols y) ((cells y)[0 := (cells y ! 0)[j := ?x]])"
  have j: "j < ncols y" "j < ncols probas" using Cons.prems by simp_all
  have step: "predict_loop probas (j # js) y = predict_loop probas js ?y1"
    using j Cons.prems by (simp add: get_item_def set_item_def)
  have wf1: "wf_array ?y1" using Cons.prems
    by (auto simp: wf_array_def list_all_iff dest!: set_update_subset_insert [THEN subsetD])
  have it: "item ?y1 0 i = (if i = j then ?x else item y 0 i)" if "i < ncols y" for i
    using that Cons.prems by (auto simp: item_def wf_array_def list_all_iff)
  from Cons.IH [of ?y1] wf1 Cons.prems
  obtain y' where y': "predict_loop probas js ?y1 = Inr y'" "wf_array y'" "shape y' = shape ?y1"
    "\<forall>i<ncols ?y1. item y' 0 i =
        (if i \<in> set js then (if item probas 0 i > 1 / 2 then 1 else 0) else item ?y1 0 i)"
    by auto
  have "\<forall>i<ncols y. item y' 0 i =
        (if i \<in> set (j # js) then (if item probas 0 i > 1 / 2 then 1 else 0) else item y 0 i)"
    using y'(4) it by auto
  then show ?case using step y' by (auto simp: shape_def)
qed

lemma L_model_forward_shape:
  "L_model_forward X P dp md = Inr (AL, caches) \<Longrightarrow> shape AL = (1, ncols X)"
  by (auto simp: L_model_forward_def bnd_def Let_def split: sum.splits if_splits prod.splits)

text \<open>
  C10. Whenever forward propagation in inference mode returns probabilities for \<open>X\<close>,
  \<open>predict\<close> returns them with a label array of shape \<open>(1, numExamples)\<close> in which example
  \<open>i\<close> has label 1 exactly when its probability is strictly greater than 0.5; a probability
  of exactly 0.5 gets label 0, and every label is 0 or 1.
\<close>

theorem predict_threshold:
  assumes "L_model_forward X (trained_params self) ([], []) Test = Inr (probas, caches)"
  shows "\<exists>y. predict self X = Inr (y, probas) \<and>
     wf_array y \<and> shape y = (1, ncols X) \<and> shape probas = (1, ncols X) \<and>
     (\<forall>i<ncols X. item y 0 i = (if item probas 0 i > 1 / 2 then 1 else 0)) \<and>
     (\<forall>i<ncols X. item probas 0 i = 1 / 2 \<longrightarrow> item y 0 i = 0) \<and>
     (\<forall>i<ncols X. item y 0 i \<in> {0, 1})"
proof -
  have sh: "nrows probas = 1" "ncols probas = ncols X"
    using L_model_forward_shape [OF assms] by (simp_all add: shape_def)
  have z: "wf_array (zeros 1 (ncols X))" "nrows (zeros 1 (ncols X)) = 1"
    "ncols (zeros 1 (ncols X)) = ncols X"
    by (simp_all add: zeros_def)
  have "\<forall>i\<in>set [0..<ncols probas]. i < ncols (zeros 1 (ncols X)) \<and> i < ncols probas"
    using sh z by simp
  from predict_loop_result [OF z(1) z(2) sh(1) this]
  obtain y where y: "predict_loop probas [0..<ncols probas] (zeros 1 (ncols X)) = Inr y"
    "wf_array y" "shape y = shape (zeros 1 (ncols X))"
    "\<forall>i<ncols X. item y 0 i = (if item probas 0 i > 1 / 2 then 1 else 0)"
    using sh z by auto
  have run: "predict self X = Inr (y, probas)"
    using assms y(1) by (simp add: predict_def Let_def)
  show ?thesis
    using run y sh z by (auto simp: shape_def)
qed

lemma fwd_net1:
  "L_model_forward (NDArray 1 2 [[0, 1]]) (trained_params net1) ([], []) Test =
     Inr (NDArray 1 2 [[1 / 2, 1 / (1 + exp (- 1))]],
          [((NDArray 1 2 [[0, 1]], NDArray 1 1 [[1]], NDArray 1 1 [[0]]), NDArray 1 2 [[0, 1]])])"
  by (simp add: net1_def NeuralNet_init_def L_model_forward_def dict_get_def
      activation_forward_def linear_forward_def dot_def bop_def bdim_def build_def bitem_def
      item_def shape_def sigmoid_def smap_def eval_nat_numeral)

text \<open>
  Two examples through \<open>net1\<close>: the first has probability exactly 0.5 and gets label 0, the
  second has a probability above 0.5 and gets label 1.
\<close>

theorem predict_threshold_witness:
  "\<exists>y. predict net1 (NDArray 1 2 [[0, 1]]) =
         Inr (y, NDArray 1 2 [[1 / 2, 1 / (1 + exp (- 1))]]) \<and>
       shape y = (1, 2) \<and> item y 0 0 = 0 \<and> item y 0 1 = 1"
proof -
  have e: "exp (- 1 :: real) < 1" by simp
  have p: "0 < 1 + exp (- 1 :: real)" by (simp add: add_pos_pos)
  have "1 / (1 + exp (- 1 :: real)) > 1 / 2"
    using e p by (simp add: pos_less_divide_eq)
  then show ?thesis
    using predict_threshold [OF fwd_net1]
    by (auto simp: item_def All_less_Suc eval_nat_numeral)
qed

section \<open>The parameter update\<close>

lemma map_of_dict_set: "map_of (dict_set d k x) = (map_of d)(k \<mapsto> x)"
  by (induction d k x rule: dict_set.induct) auto

lemma keys_dict_set: "map_of d k = Some y \<Longrightarrow> map fst (dict_set d k x) = map fst d"
  by (induction d k x rule: dict_set.induct) (auto split: if_splits)

lemma dict_get_Some: "map_of d k = Some x \<Longrightarrow> dict_get d k = Inr x"
  by (simp add: dict_get_def)

lemma build_cong:
  "(\<And>i j. i < r \<Longrightarrow> j < c \<Longrightarrow> f i j = g i j) \<Longrightarrow> build r c f = build r c g"
  by (simp add: build_def)

lemma momentum_step:
  assumes "wf_array V" "wf_array G" "shape V = shape G"
  shows "bop (+) (smap (\<lambda>x. bt * x) V) (smap (\<lambda>x. (1 - bt) * x) G) = Inr (momentum_spec bt V G)"
proof -
  have sh: "nrows V = nrows G" "ncols V = ncols G"
    using assms by (simp_all add: shape_def)
  have "build (nrows V) (ncols V)
          (\<lambda>i j. bitem (smap (\<lambda>x. bt * x) V) i j + bitem (smap (\<lambda>x. (1 - bt) * x) G) i j)
        = momentum_spec bt V G"
    unfolding momentum_spec_def using assms sh
    by (intro build_cong) (simp add: bitem_item)
  then show ?thesis
    using sh by (simp add: bop_same_shape)
qed

lemma descent_step:
  assumes "wf_array W" "wf_array V" "shape W = shape V"
  shows "bop_inplace (-) W (smap (\<lambda>x. x * rate) V) = Inr (descent_spec rate W V)"
proof -
  have sh: "nrows W = nrows V" "ncols W = ncols V"
    using assms by (simp_all add: shape_def)
  have "build (nrows W) (ncols W)
          (\<lambda>i j. bitem W i j - bitem (smap (\<lambda>x. x * rate) V) i j)
        = descent_spec rate W V"
    unfolding descent_spec_def using assms sh
    by (intro build_cong) (simp add: bitem_item)
  then show ?thesis
    using sh by (simp add: bop_inplace_def bop_same_shape shape_def descent_spec_def)
qed

lemma shape_momentum_spec [simp]: "shape (momentum_spec bt V G) = shape V"
  by (simp add: momentum_spec_def shape_def)

lemma wf_momentum_spec [simp]: "wf_array (momentum_spec bt V G)"
  by (simp add: momentum_spec_def)

lemma shape_descent_spec [simp]: "shape (descent_spec rate W V) = shape W"
  by (simp add: descent_spec_def shape_def)

lemma wf_descent_spec [simp]: "wf_array (descent_spec rate W V)"
  by (simp add: descent_spec_def)

lemma update_loop_step:
  assumes "layer_ready parameters grads v (l + 1)"
  shows "update_loop self grads rate (l # ls) parameters v =
     update_loop self grads rate ls
       (dict_set (dict_set parameters (Key ''W'' (l + 1))
            (descent_spec rate (entry parameters ''W'' (l + 1))
               (momentum_spec (beta self) (entry v ''dW'' (l + 1)) (entry grads ''dW'' (l + 1)))))
          (Key ''b'' (l + 1))
            (descent_spec rate (entry parameters ''b'' (l + 1))
               (momentum_spec (beta self) (entry v ''db'' (l + 1)) (entry grads ''db'' (l + 1)))))
       (dict_set (dict_set v (Key ''dW'' (l + 1))
            (momentum_spec (beta self) (entry v ''dW'' (l + 1)) (entry grads ''dW'' (l + 1))))
          (Key ''db'' (l + 1))
            (momentum_spec (beta self) (entry v ''db'' (l + 1)) (entry grads ''db'' (l + 1))))"
proof -
  from assms obtain W VW GW b Vb Gb where
    g: "map_of parameters (Key ''W'' (l + 1)) = Some W" "map_of v (Key ''dW'' (l + 1)) = Some VW"
       "map_of grads (Key ''dW'' (l + 1)) = Some GW" "map_of parameters (Key ''b'' (l + 1)) = Some b"
       "map_of v (Key ''db'' (l + 1)) = Some Vb" "map_of grads (Key ''db'' (l + 1)) = Some Gb"
    and w: "wf_array W" "wf_array VW" "wf_array GW" "wf_array b" "wf_array Vb" "wf_array Gb"
    and s: "shape W = shape VW" "shape VW = shape GW" "shape b = shape Vb" "shape Vb = shape Gb"
    unfolding layer_ready_def store_ready_def by (metis option.inject)
  show ?thesis
    using g w s
    by (simp add: dict_get_def map_of_dict_set entry_def momentum_step descent_step Let_def)
qed

lemma layer_ready_keys:
  assumes "layer_ready parameters grads v l"
  shows "\<exists>W b VW Vb. map_of parameters (Key ''W'' l) = Some W \<and>
     map_of parameters (Key ''b'' l) = Some b \<and> map_of v (Key ''dW'' l) = Some VW \<and>
     map_of v (Key ''db'' l) = Some Vb"
  using assms unfolding layer_ready_def store_ready_def by blast

lemma layer_ready_other:
  assumes "layer_ready parameters grads v l'" and "l' \<noteq> l"
  shows "layer_ready
       (dict_set (dict_set parameters (Key ''W'' l) A) (Key ''b'' l) B) grads
       (dict_set (dict_set v (Key ''dW'' l) C) (Key ''db'' l) D) l'"
  using assms by (simp add: layer_ready_def store_ready_def map_of_dict_set)

lemma updated_extend:
  assumes u: "updated self rate p2 grads v2 S p' v'"
    and l: "l \<notin> S"
    and keys: "map fst p2 = map fst parameters" "map fst v2 = map fst v"
    and M1: "M1 = momentum_spec (beta self) (entry v ''dW'' l) (entry grads ''dW'' l)"
    and M2: "M2 = momentum_spec (beta self) (entry v ''db'' l) (entry grads ''db'' l)"
    and mp: "map_of p2 = (map_of parameters)
               (Key ''W'' l \<mapsto> descent_spec rate (entry parameters ''W'' l) M1,
                Key ''b'' l \<mapsto> descent_spec rate (entry parameters ''b'' l) M2)"
    and mv: "map_of v2 = (map_of v)(Key ''dW'' l \<mapsto> M1, Key ''db'' l \<mapsto> M2)"
  shows "updated self rate parameters grads v (insert l S) p' v'"
proof -
  have uv: "\<And>k. (\<forall>l'\<in>S. k \<noteq> Key ''dW'' l' \<and> k \<noteq> Key ''db'' l') \<Longrightarrow> map_of v' k = map_of v2 k"
    and up: "\<And>k. (\<forall>l'\<in>S. k \<noteq> Key ''W'' l' \<and> k \<noteq> Key ''b'' l') \<Longrightarrow> map_of p' k = map_of p2 k"
    using u by (simp_all add: updated_def)
  have vl: "map_of v' (Key ''dW'' l) = Some M1" "map_of v' (Key ''db'' l) = Some M2"
    using uv [of "Key ''dW'' l"] uv [of "Key ''db'' l"] l by (auto simp: mv)
  have pl: "map_of p' (Key ''W'' l) = Some (descent_spec rate (entry parameters ''W'' l) M1)"
    "map_of p' (Key ''b'' l) = Some (descent_spec rate (entry parameters ''b'' l) M2)"
    using up [of "Key ''W'' l"] up [of "Key ''b'' l"] l by (auto simp: mp)
  have old: "entry v2 ''dW'' l' = entry v ''dW'' l'" "entry v2 ''db'' l' = entry v ''db'' l'"
    "entry p2 ''W'' l' = entry parameters ''W'' l'" "entry p2 ''b'' l' = entry parameters ''b'' l'"
    if "l' \<in> S" for l'
    using that l by (auto simp: entry_def mp mv)
  have c1: "map fst p' = map fst parameters" "map fst v' = map fst v"
    using u keys by (simp_all add: updated_def)
  have c2: "map_of v' (Key ''dW'' l') =
          Some (momentum_spec (beta self) (entry v ''dW'' l') (entry grads ''dW'' l')) \<and>
        map_of v' (Key ''db'' l') =
          Some (momentum_spec (beta self) (entry v ''db'' l') (entry grads ''db'' l')) \<and>
        map_of p' (Key ''W'' l') =
          Some (descent_spec rate (entry parameters ''W'' l') (entry v' ''dW'' l')) \<and>
        map_of p' (Key ''b'' l') =
          Some (descent_spec rate (entry parameters ''b'' l') (entry v' ''db'' l'))"
    if "l' \<in> insert l S" for l'
  proof (cases "l' = l")
    case True
    then show ?thesis using vl pl by (simp add: entry_def M1 M2)
  next
    case False
    then have "l' \<in> S" using that by simp
    then show ?thesis using u old [of l'] by (simp add: updated_def)
  qed
  have c3: "map_of v' k = map_of v k"
    if "\<forall>l'\<in>insert l S. k \<noteq> Key ''dW'' l' \<and> k \<noteq> Key ''db'' l'" for k
    using uv [of k] that by (simp add: mv)
  have c4: "map_of p' k = map_of parameters k"
    if "\<forall>l'\<in>insert l S. k \<noteq> Key ''W'' l' \<and> k \<noteq> Key ''b'' l'" for k
    using up [of k] that by (simp add: mp)
  show ?thesis
    unfolding updated_def using c1 c2 c3 c4 by blast
qed

lemma update_loop_result:
  assumes "distinct ls" and "\<forall>l\<in>set ls. layer_ready parameters grads v (l + 1)"
  shows "\<exists>p' v'. update_loop self grads rate ls parameters v = Inr (p', v') \<and>
     updated self rate parameters grads v ((\<lambda>l. l + 1) ` set ls) p' v'"
  using assms
proof (induction ls arbitrary: parameters v)
  case Nil
  then show ?case by (simp add: updated_def)
next
  case (Cons l ls)
  let ?M1 = "momentum_spec (beta self) (entry v ''dW'' (l + 1)) (entry grads ''dW'' (l + 1))"
  let ?M2 = "momentum_spec (beta self) (entry v ''db'' (l + 1)) (entry grads ''db'' (l + 1))"
  let ?D1 = "descent_spec rate (entry parameters ''W'' (l + 1)) ?M1"
  let ?D2 = "descent_spec rate (entry parameters ''b'' (l + 1)) ?M2"
  let ?p2 = "dict_set (dict_set parameters (Key ''W'' (l + 1)) ?D1) (Key ''b'' (l + 1)) ?D2"
  let ?v2 = "dict_set (dict_set v (Key ''dW'' (l + 1)) ?M1) (Key ''db'' (l + 1)) ?M2"
  have ready: "layer_ready parameters grads v (l + 1)" using Cons.prems by simp
  have step: "update_loop self grads rate (l # ls) parameters v =
      update_loop self grads rate ls ?p2 ?v2"
    by (rule update_loop_step [OF ready])
  from layer_ready_keys [OF ready] obtain W b VW Vb where
    k: "map_of parameters (Key ''W'' (l + 1)) = Some W"
       "map_of parameters (Key ''b'' (l + 1)) = Some b"
       "map_of v (Key ''dW'' (l + 1)) = Some VW" "map_of v (Key ''db'' (l + 1)) = Some Vb"
    by blast
  have keys: "map fst ?p2 = map fst parameters" "map fst ?v2 = map fst v"
    using k by (simp_all add: keys_dict_set map_of_dict_set)
  have mp: "map_of ?p2 = (map_of parameters)(Key ''W'' (l + 1) \<mapsto> ?D1, Key ''b'' (l + 1) \<mapsto> ?D2)"
    and mv: "map_of ?v2 = (map_of v)(Key ''dW'' (l + 1) \<mapsto> ?M1, Key ''db'' (l + 1) \<mapsto> ?M2)"
    by (simp_all add: map_of_dict_set)
  have nl: "l \<notin> set ls" "distinct ls" using Cons.prems by simp_all
  have "\<forall>l'\<in>set ls. layer_ready ?p2 grads ?v2 (l' + 1)"
    using Cons.prems nl by (auto intro!: layer_ready_other)
  from Cons.IH [OF nl(2) this] obtain p' v' where
    run: "update_loop self grads rate ls ?p2 ?v2 = Inr (p', v')"
    and u: "updated self rate ?p2 grads ?v2 ((\<lambda>l. l + 1) ` set ls) p' v'"
    by blast
  have "l + 1 \<notin> (\<lambda>l. l + 1) ` set ls" using nl(1) by auto
  from updated_extend [OF u this keys refl refl mp mv]
  have "updated self rate parameters grads v ((\<lambda>l. l + 1) ` set (l # ls)) p' v'"
    by simp
  then show ?case using step run by simp
qed

lemma image_Suc_upt: "(\<lambda>l. l + 1) ` set [0..<n] = {1..n}"
  by (auto simp: image_iff)

text \<open>
  C6. With \<open>L\<close> half the number of entries of \<open>parameters\<close> and every layer \<open>1 \<dots> L\<close> ready, one
  call of \<open>update_params\<close> returns stores in which, for each such layer, the momentum of the
  weights and of the biases is \<open>beta \<cdot> momentum + (1 - beta) \<cdot> gradient\<close> entry by entry, each
  parameter is \<open>parameter - learning rate \<cdot> new momentum\<close>, every other entry of both stores is
  as before, and the keys and their order are unchanged.
\<close>

theorem update_params_momentum:
  assumes "\<forall>l\<in>{1..length parameters div 2}. layer_ready parameters grads v l"
  shows "\<exists>parameters' v'.
     update_params self parameters grads v rate = Inr (parameters', v') \<and>
     map fst parameters' = map fst parameters \<and> map fst v' = map fst v \<and>
     (\<forall>l\<in>{1..length parameters div 2}.
        map_of v' (Key ''dW'' l) =
          Some (momentum_spec (beta self) (entry v ''dW'' l) (entry grads ''dW'' l)) \<and>
        map_of v' (Key ''db'' l) =
          Some (momentum_spec (beta self) (entry v ''db'' l) (entry grads ''db'' l)) \<and>
        map_of parameters' (Key ''W'' l) =
          Some (descent_spec rate (entry parameters ''W'' l) (entry v' ''dW'' l)) \<and>
        map_of parameters' (Key ''b'' l) =
          Some (descent_spec rate (entry parameters ''b'' l) (entry v' ''db'' l))) \<and>
     (\<forall>k. (\<forall>l\<in>{1..length parameters div 2}. k \<noteq> Key ''dW'' l \<and> k \<noteq> Key ''db'' l)
          \<longrightarrow> map_of v' k = map_of v k) \<and>
     (\<forall>k. (\<forall>l\<in>{1..length parameters div 2}. k \<noteq> Key ''W'' l \<and> k \<noteq> Key ''b'' l)
          \<longrightarrow> map_of parameters' k = map_of parameters k)"
proof -
  let ?L = "length parameters div 2"
  have "\<forall>l\<in>set [0..<?L]. layer_ready parameters grads v (l + 1)"
    using assms by simp
  from update_loop_result [OF distinct_upt this, of self rate]
  obtain p' v' where run: "update_loop self grads rate [0..<?L] parameters v = Inr (p', v')"
    and u: "updated self rate parameters grads v {1..?L} p' v'"
    unfolding image_Suc_upt by blast
  have "update_params self parameters grads v rate = Inr (p', v')"
    using run by (simp add: update_params_def)
  then show ?thesis
    using u unfolding updated_def by blast
qed

text \<open>One layer of one unit, with \<open>beta = 1/2\<close> and learning rate 1.\<close>

theorem update_params_momentum_witness:
  "\<exists>parameters' v'.
     update_params (NeuralNet_init [1, 1] 1 1 0 (1 / 2) False) params_one grads_one v_zero 1
       = Inr (parameters', v') \<and>
     map_of v' (Key ''dW'' 1) = Some (NDArray 1 1 [[1]]) \<and>
     map_of v' (Key ''db'' 1) = Some (NDArray 1 1 [[2]]) \<and>
     map_of parameters' (Key ''W'' 1) = Some (NDArray 1 1 [[0]]) \<and>
     map_of parameters' (Key ''b'' 1) = Some (NDArray 1 1 [[- 2]])"
proof -
  have "\<forall>l\<in>{1..length params_one div 2}. layer_ready params_one grads_one v_zero l"
    by (simp add: params_one_def grads_one_def v_zero_def layer_ready_def store_ready_def
        wf_array_def shape_def)
  from update_params_momentum [OF this, of "NeuralNet_init [1, 1] 1 1 0 (1 / 2) False" 1]
  show ?thesis
    by (auto simp: params_one_def grads_one_def v_zero_def entry_def momentum_spec_def
        descent_spec_def build_def item_def NeuralNet_init_def)
qed

section \<open>Dropout with keep probability 1\<close>

lemma smap_build: "smap f (build r c h) = build r c (\<lambda>i j. f (h i j))"
  by (simp add: smap_def build_def)

lemma build_items: "wf_array A \<Longrightarrow> build (nrows A) (ncols A) (item A) = A"
  by (cases A) (auto intro!: nth_equalityI simp: build_def wf_array_def list_all_iff item_def)

lemma dropout_scale_keep_all:
  assumes "wf_array A" and "map_of D (Key [] i) = Some (keep_all (nrows A) (ncols A))"
    and "j < length keep_prob" and "keep_prob ! j = 1"
  shows "dropout_scale A D i keep_prob j = Inr A"
proof -
  have "build (nrows A) (ncols A)
          (\<lambda>r c. bitem A r c * (if bitem (keep_all (nrows A) (ncols A)) r c then 1 else 0))
        = build (nrows A) (ncols A) (item A)"
    by (intro build_cong) (simp add: bitem_item keep_all_def)
  then have m: "bop (\<lambda>a d. a * (if d then 1 else 0)) A (keep_all (nrows A) (ncols A)) = Inr A"
    using assms(1) by (simp add: bop_same_shape keep_all_def build_items)
  have "smap (\<lambda>a. a / 1) A = A"
    by (cases A) (simp add: smap_def)
  then show ?thesis
    using assms m by (simp add: dropout_scale_def dict_get_def list_get_def)
qed

lemma activation_forward_result:
  assumes "activation_forward A_prev W b act = Inr (A, cache)"
  shows "wf_array A \<and> nrows A = nrows W \<and> ncols A = ncols A_prev"
proof -
  from assms obtain Z where Z: "linear_forward A_prev W b = Inr (Z, (A_prev, W, b))"
    and A: "A = (case act of ReLU \<Rightarrow> relu Z | Sigmoid \<Rightarrow> sigmoid Z | Leaky_ReLU \<Rightarrow> leaky_relu Z)"
    and s: "shape A = (nrows W, ncols A_prev)"
    by (auto simp: activation_forward_def linear_forward_def bnd_def Let_def
        split: sum.splits if_splits)
  from Z obtain P where "bop (+) P b = Inr Z"
    by (auto simp: linear_forward_def bnd_def split: sum.splits if_splits)
  then have "wf_array Z"
    by (auto simp: bop_def split: option.splits)
  then have "wf_array A"
    using A by (cases act) (simp_all add: relu_def sigmoid_def leaky_relu_def)
  then show ?thesis using s by (simp add: shape_def)
qed

lemma rand_keep_all:
  assumes "\<forall>k. cp_uniform g k < 1" and "0 \<le> r"
  shows "\<exists>U. rand r m g = Inr (U, g\<lparr>cp_pos := cp_pos g + nat r * m\<rparr>) \<and>
     smap (\<lambda>u. u < 1) U = keep_all (nat r) m"
  using assms by (simp add: rand_def smap_build keep_all_def)

lemma init_dropout_loop_masks:
  assumes "\<forall>k. cp_uniform g k < 1"
    and "\<forall>l\<in>set ls. l < length (layer_dims self) \<and> 0 \<le> layer_dims self ! l \<and>
           l < length keep_prob \<and> keep_prob ! l = 1"
  shows "\<exists>D' g'. init_dropout_loop self keep_prob m ls D g = Inr (D', g') \<and>
     (\<forall>l. map_of D' (Key [] l) =
        (if l \<in> set ls then Some (keep_all (nat (layer_dims self ! l)) m)
         else map_of D (Key [] l)))"
  using assms
proof (induction ls arbitrary: D g)
  case Nil
  then show ?case by simp
next
  case (Cons l ls)
  let ?g1 = "g\<lparr>cp_pos := cp_pos g + nat (layer_dims self ! l) * m\<rparr>"
  let ?D1 = "dict_set D (Key [] l) (keep_all (nat (layer_dims self ! l)) m)"
  have l: "l < length (layer_dims self)" "0 \<le> layer_dims self ! l"
    "l < length keep_prob" "keep_prob ! l = 1"
    using Cons.prems(2) by simp_all
  from rand_keep_all [OF Cons.prems(1) l(2), of m] obtain U where
    U: "rand (layer_dims self ! l) m g = Inr (U, ?g1)"
       "smap (\<lambda>u. u < 1) U = keep_all (nat (layer_dims self ! l)) m"
    by blast
  have step: "init_dropout_loop self keep_prob m (l # ls) D g =
      init_dropout_loop self keep_prob m ls ?D1 ?g1"
    using l U by (simp add: list_get_def)
  have "\<forall>k. cp_uniform ?g1 k < 1" using Cons.prems(1) by simp
  moreover have "\<forall>l\<in>set ls. l < length (layer_dims self) \<and> 0 \<le> layer_dims self ! l \<and>
           l < length keep_prob \<and> keep_prob ! l = 1"
    using Cons.prems(2) by simp
  ultimately obtain D' g' where
    r: "init_dropout_loop self keep_prob m ls ?D1 ?g1 = Inr (D', g')"
       "\<forall>l'. map_of D' (Key [] l') =
        (if l' \<in> set ls then Some (keep_all (nat (layer_dims self ! l')) m)
         else map_of ?D1 (Key [] l'))"
    using Cons.IH [of ?g1 ?D1] by blast
  have "\<forall>l'. map_of D' (Key [] l') =
        (if l' \<in> set (l # ls) then Some (keep_all (nat (layer_dims self ! l')) m)
         else map_of D (Key [] l'))"
    using r(2) by (simp add: map_of_dict_set)
  then show ?case using step r(1) by simp
qed

lemma forward_loop_ncols:
  "forward_loop parameters dp Test ls A caches = Inr (A', caches') \<Longrightarrow>
   ncols A' = ncols A \<and> (ls \<noteq> [] \<longrightarrow> wf_array A')"
proof (induction ls arbitrary: A caches)
  case Nil
  then show ?case by simp
next
  case (Cons l ls)
  from Cons.prems obtain W b A1 cache where
    a: "activation_forward A W b Leaky_ReLU = Inr (A1, cache)"
    and r: "forward_loop parameters dp Test ls A1 (caches @ [cache]) = Inr (A', caches')"
    by (auto simp: bnd_def split: sum.splits)
  have A1: "wf_array A1" "ncols A1 = ncols A"
    using activation_forward_result [OF a] by simp_all
  show ?case
  proof (cases ls)
    case Nil
    then show ?thesis using r A1 by simp
  next
    case (Cons x xs)
    then show ?thesis using Cons.IH [OF r] A1 by simp
  qed
qed

lemma forward_loop_keep_all:
  assumes "\<forall>l\<in>set ls. l < length keep_prob \<and> keep_prob ! l = 1 \<and>
       (\<forall>W. map_of parameters (Key ''W'' l) = Some W \<longrightarrow>
            map_of D (Key [] l) = Some (keep_all (nrows W) (ncols A)))"
  shows "forward_loop parameters (D, keep_prob) Train ls A caches =
         forward_loop parameters dp Test ls A caches"
  using assms
proof (induction ls arbitrary: A caches)
  case Nil
  then show ?case by simp
next
  case (Cons l ls)
  show ?case
  proof (cases "dict_get parameters (Key ''W'' l)")
    case (Inl e)
    then show ?thesis by simp
  next
    case W: (Inr W)
    then have mW: "map_of parameters (Key ''W'' l) = Some W"
      by (simp add: dict_get_def split: option.splits)
    show ?thesis
    proof (cases "dict_get parameters (Key ''b'' l)")
      case (Inl e)
      then show ?thesis using W by simp
    next
      case b: (Inr b)
      show ?thesis
      proof (cases "activation_forward A W b Leaky_ReLU")
        case (Inl e)
        then show ?thesis using W b by simp
      next
        case (Inr res)
        obtain A1 cache where res: "res = (A1, cache)" by (cases res)
        have A1: "wf_array A1" "nrows A1 = nrows W" "ncols A1 = ncols A"
          using activation_forward_result [of A W b Leaky_ReLU A1 cache] Inr res by simp_all
        have "map_of D (Key [] l) = Some (keep_all (nrows A1) (ncols A1))"
          using Cons.prems mW A1 by simp
        then have d: "dropout_scale A1 D l keep_prob l = Inr A1"
          using Cons.prems A1 by (intro dropout_scale_keep_all) simp_all
        have "forward_loop parameters (D, keep_prob) Train ls A1 (caches @ [cache]) =
              forward_loop parameters dp Test ls A1 (caches @ [cache])"
          using Cons.prems A1 by (intro Cons.IH) simp
        then show ?thesis
          using W b Inr res d by simp
      qed
    qed
  qed
qed

lemma two_keys_length:
  assumes "map_of d k = Some x" and "map_of d k' = Some y" and "k \<noteq> k'"
  shows "2 \<le> length d"
proof -
  have "{(k, x), (k', y)} \<subseteq> set d"
    using assms by (auto dest: map_of_SomeD)
  then have "card {(k, x), (k', y)} \<le> card (set d)"
    by (intro card_mono) simp_all
  moreover have "card {(k, x), (k', y)} = 2" using assms(3) by simp
  moreover have "card (set d) \<le> length d" by (rule card_length)
  ultimately show ?thesis by linarith
qed

text \<open>
  C9. Let every entry of \<open>keep_prob\<close> be 1, one entry per layer, let the uniform draws lie
  below 1, and let the weight matrices have the row counts of \<open>layer_dims\<close>. Then the masks
  are generated, and forward propagation in training mode with these masks gives exactly what
  forward propagation in inference mode gives: the same output and caches, or the same error.
\<close>

theorem dropout_noop:
  assumes u: "\<forall>k. cp_uniform g k < 1"
    and kp: "length keep_prob = length (layer_dims self)" "\<forall>p\<in>set keep_prob. p = 1"
    and dims: "\<forall>d\<in>set (layer_dims self). 0 \<le> d"
    and L: "length parameters div 2 < length (layer_dims self)"
    and W: "\<forall>l\<in>{1..length parameters div 2}. \<forall>W. map_of parameters (Key ''W'' l) = Some W
              \<longrightarrow> int (nrows W) = layer_dims self ! l"
  shows "\<exists>dp g'. init_dropout self keep_prob (ncols X) g = Inr (dp, g') \<and>
     L_model_forward X parameters dp Train = L_model_forward X parameters dp0 Test"
proof -
  let ?L = "length parameters div 2"
  let ?m = "ncols X"
  have "\<forall>l\<in>set [0..<length (layer_dims self)].
          l < length (layer_dims self) \<and> 0 \<le> layer_dims self ! l \<and>
          l < length keep_prob \<and> keep_prob ! l = 1"
    using kp dims by simp
  from init_dropout_loop_masks [OF u this, of ?m "[]"] obtain D g' where
    run: "init_dropout_loop self keep_prob ?m [0..<length (layer_dims self)] [] g = Inr (D, g')"
    and D: "\<And>l. l < length (layer_dims self) \<Longrightarrow>
            map_of D (Key [] l) = Some (keep_all (nat (layer_dims self ! l)) ?m)"
    by auto
  have init: "init_dropout self keep_prob ?m g = Inr ((D, keep_prob), g')"
    using run by (simp add: init_dropout_def)
  have mask: "map_of D (Key [] l) = Some (keep_all (nrows W') ?m)"
    if "l \<in> {1..?L}" "map_of parameters (Key ''W'' l) = Some W'" for l W'
  proof -
    have "int (nrows W') = layer_dims self ! l" using W that by blast
    then have "nat (layer_dims self ! l) = nrows W'" by simp
    then show ?thesis using D [of l] that(1) L by simp
  qed
  have one: "l < length keep_prob \<and> keep_prob ! l = 1" if "l \<le> ?L" for l
    using that kp L by simp
  have loop: "forward_loop parameters (D, keep_prob) Train [1..<?L] X [] =
      forward_loop parameters dp0 Test [1..<?L] X []"
    using mask one by (intro forward_loop_keep_all) auto
  have "L_model_forward X parameters (D, keep_prob) Train = L_model_forward X parameters dp0 Test"
  proof (cases "forward_loop parameters dp0 Test [1..<?L] X []")
    case (Inl e)
    then show ?thesis using loop by (simp add: L_model_forward_def)
  next
    case (Inr res)
    obtain A caches where res: "res = (A, caches)" by (cases res)
    have nA: "ncols A = ?m"
      using forward_loop_ncols [of parameters dp0 "[1..<?L]" X "[]" A caches] Inr res by simp
    show ?thesis
    proof (cases "dict_get parameters (Key ''W'' ?L)")
      case (Inl e)
      then show ?thesis using loop Inr res by (simp add: L_model_forward_def)
    next
      case Wl: (Inr WL)
      then have mW: "map_of parameters (Key ''W'' ?L) = Some WL"
        by (simp add: dict_get_def split: option.splits)
      show ?thesis
      proof (cases "dict_get parameters (Key ''b'' ?L)")
        case (Inl e)
        then show ?thesis using loop Inr res Wl by (simp add: L_model_forward_def)
      next
        case bl: (Inr bL)
        then have mb: "map_of parameters (Key ''b'' ?L) = Some bL"
          by (simp add: dict_get_def split: option.splits)
        have "2 \<le> length parameters"
          using two_keys_length [OF mW mb] by simp
        then have Lpos: "?L \<in> {1..?L}" by simp
        show ?thesis
        proof (cases "activation_forward A WL bL Sigmoid")
          case (Inl e)
          then show ?thesis using loop Inr res Wl bl by (simp add: L_model_forward_def)
        next
          case act: (Inr r2)
          obtain AL1 cache where r2: "r2 = (AL1, cache)" by (cases r2)
          have A1: "wf_array AL1" "nrows AL1 = nrows WL" "ncols AL1 = ?m"
            using activation_forward_result [of A WL bL Sigmoid AL1 cache] act r2 nA
            by simp_all
          have "map_of D (Key [] ?L) = Some (keep_all (nrows AL1) (ncols AL1))"
            using mask [OF Lpos mW] A1 by simp
          then have "dropout_scale AL1 D ?L keep_prob ?L = Inr AL1"
            using A1 one [of ?L] by (intro dropout_scale_keep_all) simp_all
          then show ?thesis
            using loop Inr res Wl bl act r2 by (simp add: L_model_forward_def)
        qed
      qed
    qed
  qed
  then show ?thesis using init by blast
qed

text \<open>A network of one sigmoid unit on two examples, where both modes return.\<close>

theorem dropout_noop_witness:
  "\<exists>dp g'. init_dropout (NeuralNet_init [1, 1] 1 1 0 0 False) [1, 1] 2 rng0 = Inr (dp, g') \<and>
     L_model_forward (NDArray 1 2 [[0, 1]]) params_one dp Train =
       Inr (NDArray 1 2 [[1 / 2, 1 / (1 + exp (- 1))]],
            [((NDArray 1 2 [[0, 1]], NDArray 1 1 [[1]], NDArray 1 1 [[0]]), NDArray 1 2 [[0, 1]])])"
proof -
  let ?self = "NeuralNet_init [1, 1] 1 1 0 0 False"
  have h: "\<forall>k. cp_uniform rng0 k < 1" "length [1, 1 :: real] = length (layer_dims ?self)"
    "\<forall>p\<in>set [1, 1 :: real]. p = 1" "\<forall>d\<in>set (layer_dims ?self). 0 \<le> d"
    "length params_one div 2 < length (layer_dims ?self)"
    "\<forall>l\<in>{1..length params_one div 2}. \<forall>W. map_of params_one (Key ''W'' l) = Some W
              \<longrightarrow> int (nrows W) = layer_dims ?self ! l"
    by (auto simp: rng0_def NeuralNet_init_def params_one_def)
  have t: "trained_params net1 = params_one"
    by (simp add: net1_def params_one_def)
  show ?thesis
    using dropout_noop [OF h, of "NDArray 1 2 [[0, 1]]" "([], [])"] fwd_net1
    by (simp add: t)
qed

section \<open>Dropout in backward propagation\<close>

lemmas array_eval = dict_get_def list_get_def activation_forward_def linear_forward_def
  dropout_scale_def dot_def bop_def bdim_def build_def bitem_def item_def shape_def
  sigmoid_def leaky_relu_def smap_def transpose_arr_def sum_axis1_def reshape_def

lemma forward3:
  "L_model_forward (NDArray 1 1 [[1]]) params3 dropout3 Train = Inr (NDArray 1 1 [[1 / 2]], caches3)"
proof -
  have L: "length params3 div 2 = 3" by (simp add: params3_def)
  have u: "[1..<3] = [1, 2::nat]" by (simp add: upt_rec)
  show ?thesis
    unfolding L_model_forward_def L Let_def u
    by (simp add: params3_def dropout3_def caches3_def array_eval)
qed

lemma backward3:
  "L_model_backward net3 (NDArray 1 1 [[1 / 2]]) (NDArray 1 1 [[1]]) caches3 dropout3 = Inr grads3"
proof -
  have L: "length caches3 = 3" by (simp add: caches3_def)
  have u: "rev [0..<3 - 1] = [1, 0::nat]" by (simp add: upt_rec)
  show ?thesis
    unfolding L_model_backward_def L Let_def u
    by (simp add: net3_def NeuralNet_init_def dropout3_def caches3_def grads3_def array_eval
        activation_back_def linear_back_def sigmoid_backward_def sigmoid_derivative_def
        lrelu_backward_def)
qed

text \<open>
  C1. Forward propagation drops the unit of layer 2 (its cached output is 0) and scales
  layer 1 by its keep probability 1/2. Backward propagation feeds the gradient of layer 2's
  activation to layer 2's derivative step as it is, neither masked nor scaled, so that
  \<open>db2\<close> is \<open>- 1/2\<close> and not 0; and it divides the gradient of layer 1's activation
  (\<open>- 1/2\<close> after the linear step) by the keep probability 1/4 of layer 2, giving \<open>- 2\<close>,
  where the keep probability 1/2 of layer 1 gives \<open>- 1\<close>.
\<close>

theorem L_model_backward_dropout_mismatch:
  "L_model_forward (NDArray 1 1 [[1]]) params3 dropout3 Train =
     Inr (NDArray 1 1 [[1 / 2]], caches3) \<and>
   L_model_backward net3 (NDArray 1 1 [[1 / 2]]) (NDArray 1 1 [[1]]) caches3 dropout3 =
     Inr grads3 \<and>
   dict_get (fst dropout3) (Key [] 2) = Inr (NDArray 1 1 [[False]]) \<and>
   dict_get grads3 (Key ''db'' 2) = Inr (NDArray 1 1 [[- 1 / 2]]) \<and>
   dict_get grads3 (Key ''dA'' 2) = Inr (NDArray 1 1 [[- 2]])"
  using forward3 backward3 by (simp add: dropout3_def grads3_def dict_get_def)

section \<open>The cost\<close>

lemma sum_all_items:
  assumes "wf_array A"
  shows "sum_all A = (\<Sum>i<nrows A. \<Sum>j<ncols A. item A i j)"
proof -
  have "map sum_list (cells A) = map (\<lambda>i. sum_list (cells A ! i)) [0..<nrows A]"
    using assms by (intro nth_equalityI) (simp_all add: wf_array_def)
  then have "sum_all A = sum_list (map (\<lambda>i. sum_list (cells A ! i)) [0..<nrows A])"
    by (simp add: sum_all_def)
  also have "\<dots> = (\<Sum>i<nrows A. sum_list (cells A ! i))"
    by (simp add: interv_sum_list_conv_sum_set_nat atLeast0LessThan)
  also have "\<dots> = (\<Sum>i<nrows A. \<Sum>j<ncols A. item A i j)"
    using assms by (simp add: row_sum_items)
  finally show ?thesis .
qed

lemma sum_all_squares:
  assumes "wf_array W"
  shows "sum_all (smap (\<lambda>x. x * x) W) = frobenius_sq W"
proof -
  have "sum_all (smap (\<lambda>x. x * x) W)
      = (\<Sum>i<nrows W. \<Sum>j<ncols W. item (smap (\<lambda>x. x * x) W) i j)"
    using assms by (simp add: sum_all_items)
  also have "\<dots> = frobenius_sq W"
    using assms by (simp add: frobenius_sq_def power2_eq_square)
  finally show ?thesis .
qed

lemma l2_loop_sum:
  assumes "\<forall>l\<in>set ls. \<exists>W. map_of parameters (Key ''W'' (l + 1)) = Some W \<and> wf_array W"
  shows "l2_loop parameters ls acc =
     Inr (acc + sum_list (map (\<lambda>l. frobenius_sq (weight parameters (l + 1))) ls))"
  using assms
proof (induction ls arbitrary: acc)
  case Nil
  then show ?case by simp
next
  case (Cons l ls)
  then obtain W where W: "map_of parameters (Key ''W'' (l + 1)) = Some W" "wf_array W"
    by auto
  then show ?case
    using Cons by (simp add: dict_get_def sum_all_squares weight_def add.assoc)
qed

lemma sum_shift_one: "(\<Sum>l = 0..<n. f (Suc l)) = (\<Sum>l = 1..n. (f l :: real))"
  by (induction n) simp_all

lemma l2_loop_spec:
  assumes "has_weights parameters"
  shows "l2_loop parameters [0..<length parameters div 2] 0 = Inr (l2_spec parameters)"
proof -
  let ?L = "length parameters div 2"
  have "\<forall>l\<in>set [0..<?L]. \<exists>W. map_of parameters (Key ''W'' (l + 1)) = Some W \<and> wf_array W"
    using assms by (auto simp: has_weights_def)
  then have "l2_loop parameters [0..<?L] 0 =
     Inr (sum_list (map (\<lambda>l. frobenius_sq (weight parameters (l + 1))) [0..<?L]))"
    by (simp add: l2_loop_sum)
  also have "sum_list (map (\<lambda>l. frobenius_sq (weight parameters (l + 1))) [0..<?L])
      = (\<Sum>l = 0..<?L. frobenius_sq (weight parameters (Suc l)))"
    by (simp add: interv_sum_list_conv_sum_set_nat)
  also have "\<dots> = l2_spec parameters"
    unfolding l2_spec_def by (rule sum_shift_one)
  finally show ?thesis .
qed

lemma cross_entropy_sum_spec:
  assumes "wf_array Y" "wf_array P" "shape Y = (1, m)" "shape P = (1, m)"
  shows "cross_entropy_sum Y P =
     Inr (\<Sum>i<m. item Y 0 i * ln (item P 0 i) + (1 - item Y 0 i) * ln (1 - item P 0 i))"
proof -
  have sh: "nrows Y = 1" "ncols Y = m" "nrows P = 1" "ncols P = m"
    using assms by (simp_all add: shape_def)
  let ?T1 = "build 1 m (\<lambda>i j. bitem Y i j * bitem (smap ln P) i j)"
  let ?T2 = "build 1 m (\<lambda>i j. bitem (smap (\<lambda>y. 1 - y) Y) i j *
                                 bitem (smap ln (smap (\<lambda>p. 1 - p) P)) i j)"
  let ?S = "build 1 m (\<lambda>i j. bitem ?T1 i j + bitem ?T2 i j)"
  have t1: "bop (*) Y (smap ln P) = Inr ?T1"
    using sh by (simp add: bop_same_shape)
  have t2: "bop (*) (smap (\<lambda>y. 1 - y) Y) (smap ln (smap (\<lambda>p. 1 - p) P)) = Inr ?T2"
    using sh by (simp add: bop_same_shape)
  have s: "bop (+) ?T1 ?T2 = Inr ?S"
    by (simp add: bop_same_shape)
  have "sum_all ?S = (\<Sum>i<1. \<Sum>j<m. item ?S i j)"
    by (simp add: sum_all_items)
  also have "\<dots> = (\<Sum>j<m. item Y 0 j * ln (item P 0 j) + (1 - item Y 0 j) * ln (1 - item P 0 j))"
    using assms sh by (simp add: bitem_item)
  finally have "sum_all ?S =
      (\<Sum>j<m. item Y 0 j * ln (item P 0 j) + (1 - item Y 0 j) * ln (1 - item P 0 j))" .
  then show ?thesis
    by (simp only: cross_entropy_sum_def t1 t2 s bnd_Inr)
qed

lemma compute_cost_value:
  assumes "wf_array Y" "wf_array P" "shape Y = (1, m)" "shape P = (1, m)" "0 < m"
    and "has_weights parameters"
  shows "compute_cost self Y P parameters =
     Inr (cross_entropy_spec Y P + lambd self / (2 * real m) * l2_spec parameters)"
proof -
  have m: "ncols Y = m" using assms by (simp add: shape_def)
  show ?thesis
    using assms(5)
    by (simp add: compute_cost_def Let_def m cross_entropy_sum_spec [OF assms(1-4)]
        l2_loop_spec [OF assms(6)] cross_entropy_spec_def)
qed

lemma frobenius_sq_nonneg: "0 \<le> frobenius_sq W"
  by (simp add: frobenius_sq_def sum_nonneg)


lemma l2_spec_nonneg: "0 \<le> l2_spec parameters"
  by (simp add: l2_spec_def sum_nonneg frobenius_sq_nonneg)


lemma frobenius_sq_zero:
  "(\<And>i j. i < nrows W \<Longrightarrow> j < ncols W \<Longrightarrow> item W i j = 0) \<Longrightarrow> frobenius_sq W = 0"
  by (simp add: frobenius_sq_def)

text \<open>
  C8, amended. For labels and predictions of shape \<open>(1, m)\<close> with \<open>m > 0\<close>, every prediction
  strictly between 0 and 1, and a dictionary that holds every weight matrix, the cost is the
  cross-entropy term plus \<open>lambd / (2 m)\<close> times the sum of the squared Frobenius norms of the
  weight matrices. The cross-entropy term does not depend on \<open>lambd\<close>. A larger \<open>lambd\<close> does
  not decrease the L2 term, and when every weight entry is zero the L2 term is 0 for every
  \<open>lambd\<close>.
\<close>

theorem compute_cost_regularisation:
  assumes "wf_array Y" "wf_array P" "shape Y = (1, m)" "shape P = (1, m)" "0 < m"
    and "\<forall>j<m. 0 < item P 0 j \<and> item P 0 j < 1"
    and "has_weights parameters"
    and "lambd self < lambd self'"
  shows "compute_cost self Y P parameters =
           Inr (cross_entropy_spec Y P + lambd self / (2 * real m) * l2_spec parameters) \<and>
         compute_cost self' Y P parameters =
           Inr (cross_entropy_spec Y P + lambd self' / (2 * real m) * l2_spec parameters) \<and>
         lambd self / (2 * real m) * l2_spec parameters
           \<le> lambd self' / (2 * real m) * l2_spec parameters \<and>
         ((\<forall>l\<in>{1..length parameters div 2}.
              \<forall>i<nrows (weight parameters l). \<forall>j<ncols (weight parameters l).
                item (weight parameters l) i j = 0) \<longrightarrow>
            lambd self / (2 * real m) * l2_spec parameters = 0 \<and>
            lambd self' / (2 * real m) * l2_spec parameters = 0)"
proof -
  let ?s = "l2_spec parameters"
  have c: "lambd self / (2 * real m) < lambd self' / (2 * real m)"
    using assms(5,8) by (simp add: divide_strict_right_mono)
  have le: "lambd self / (2 * real m) * ?s \<le> lambd self' / (2 * real m) * ?s"
    by (rule mult_right_mono [OF less_imp_le [OF c] l2_spec_nonneg])
  have z: "?s = 0"
    if "\<forall>l\<in>{1..length parameters div 2}.
              \<forall>i<nrows (weight parameters l). \<forall>j<ncols (weight parameters l).
                item (weight parameters l) i j = 0"
    unfolding l2_spec_def using that by (intro sum.neutral ballI frobenius_sq_zero) blast
  show ?thesis
    using compute_cost_value [OF assms(1-5,7), of self]
      compute_cost_value [OF assms(1-5,7), of self'] le z
    by simp
qed

lemma cost_zero_weights:
  "compute_cost (NeuralNet_init [1, 1] 1 1 l2 0 False)
     (NDArray 1 1 [[1]]) (NDArray 1 1 [[1 / 2]]) params_zero = Inr (ln 2)"
  by (simp add: NeuralNet_init_def compute_cost_def cross_entropy_sum_def params_zero_def
      bop_def bdim_def build_def bitem_def item_def smap_def sum_all_def dict_get_def
      ln_div)

text \<open>
  C8, as stated: a strictly larger \<open>lambd\<close> strictly increases the L2 term. With all weights
  zero the term is 0 for \<open>lambd = 1\<close> and for \<open>lambd = 2\<close>, and the cost is the same.
\<close>

theorem compute_cost_regularisation_counterexample:
  "lambd (NeuralNet_init [1, 1] 1 1 1 0 False) < lambd (NeuralNet_init [1, 1] 1 1 2 0 False) \<and>
   compute_cost (NeuralNet_init [1, 1] 1 1 1 0 False)
     (NDArray 1 1 [[1]]) (NDArray 1 1 [[1 / 2]]) params_zero = Inr (ln 2) \<and>
   compute_cost (NeuralNet_init [1, 1] 1 1 2 0 False)
     (NDArray 1 1 [[1]]) (NDArray 1 1 [[1 / 2]]) params_zero = Inr (ln 2)"
  using cost_zero_weights [of 1] cost_zero_weights [of 2] by (simp add: NeuralNet_init_def)

theorem compute_cost_regularisation_witness:
  "compute_cost (NeuralNet_init [1, 1] 1 1 1 0 False)
     (NDArray 1 1 [[1]]) (NDArray 1 1 [[1 / 2]]) params_one = Inr (ln 2 + 1 / 2) \<and>
   compute_cost (NeuralNet_init [1, 1] 1 1 2 0 False)
     (NDArray 1 1 [[1]]) (NDArray 1 1 [[1 / 2]]) params_one = Inr (ln 2 + 1) \<and>
   (1 / 2 :: real) < 1"
proof -
  have h: "wf_array (NDArray 1 1 [[1::real]])" "wf_array (NDArray 1 1 [[1 / 2 :: real]])"
    "shape (NDArray 1 1 [[1::real]]) = (1, 1)" "shape (NDArray 1 1 [[1 / 2 :: real]]) = (1, 1)"
    "0 < (1::nat)" "\<forall>j<1. 0 < item (NDArray 1 1 [[1 / 2 :: real]]) 0 j \<and>
                        item (NDArray 1 1 [[1 / 2 :: real]]) 0 j < 1"
    "has_weights params_one"
    "lambd (NeuralNet_init [1, 1] 1 1 1 0 False) < lambd (NeuralNet_init [1, 1] 1 1 2 0 False)"
    by (simp_all add: wf_array_def shape_def has_weights_def params_one_def NeuralNet_init_def
        item_def)
  have v: "cross_entropy_spec (NDArray 1 1 [[1]]) (NDArray 1 1 [[1 / 2]]) = ln 2"
    "l2_spec params_one = 1"
    by (simp_all add: cross_entropy_spec_def l2_spec_def frobenius_sq_def weight_def
        params_one_def item_def ln_div)
  show ?thesis
    using compute_cost_regularisation [OF h] v by (simp add: NeuralNet_init_def)
qed

section \<open>The mini-batch partition\<close>

lemma filter_eq_upt: "filter (\<lambda>i. i = j) [0..<n] = (if j < n then [j] else [])"
  by (induction n) auto

lemma pos_of_nth: "c \<in> set ls \<Longrightarrow> pos_of ls c < length ls \<and> ls ! pos_of ls c = c"
  by (induction ls) (auto simp: pos_of_def)

lemma positions_distinct:
  assumes "distinct ls" and "c \<in> set ls"
  shows "positions ls c = [pos_of ls c]"
proof -
  let ?j = "pos_of ls c"
  have j: "?j < length ls" "ls ! ?j = c" using pos_of_nth [OF assms(2)] by simp_all
  have "filter (\<lambda>i. ls ! i = c) [0..<length ls] = filter (\<lambda>i. i = ?j) [0..<length ls]"
    using assms(1) j by (intro filter_cong) (auto simp: nth_eq_iff_index_eq)
  then show ?thesis using j by (simp add: positions_def filter_eq_upt)
qed

lemma loc_distinct:
  assumes "distinct ls" and "set sel \<subseteq> set ls"
  shows "loc ls sel = Inr (map (pos_of ls) sel)"
proof -
  have p: "positions ls c = [pos_of ls c]" if "c \<in> set sel" for c
    using positions_distinct [OF assms(1)] assms(2) that by blast
  have "\<not> list_ex (\<lambda>p. positions ls p = []) sel"
    using p by (auto simp: list_ex_iff)
  moreover have "concat (map (positions ls) sel) = map (pos_of ls) sel"
    using p by (induction sel) auto
  ultimately show ?thesis by (simp add: loc_def)
qed

lemma chunks_concat:
  "concat (map (\<lambda>n. take b (drop (n * b) xs)) [0..<k]) = take (k * b) xs"
proof (induction k)
  case 0
  then show ?case by simp
next
  case (Suc k)
  have "Suc k * b = k * b + b" by simp
  then have "take (Suc k * b) xs = take (k * b) xs @ take b (drop (k * b) xs)"
    by (simp only: take_add)
  then show ?case using Suc by simp
qed

lemma length_cols_of [simp]: "length (cols_of A) = ncols A"
  by (simp add: cols_of_def)

lemma slice_cols_shape:
  assumes "s \<le> e" and "e \<le> ncols A"
  shows "nrows (slice_cols A s e) = nrows A" and "ncols (slice_cols A s e) = e - s"
  using assms by (simp_all add: slice_cols_def Let_def min_def)

lemma wf_slice_cols:
  assumes "wf_array A" and "s \<le> e" and "e \<le> ncols A"
  shows "wf_array (slice_cols A s e)"
  using assms by (auto simp: slice_cols_def Let_def min_def wf_array_def list_all_iff)

lemma item_slice_cols:
  assumes "wf_array A" and "s \<le> e" and "e \<le> ncols A" and "i < nrows A" and "j < e - s"
  shows "item (slice_cols A s e) i j = item A i (s + j)"
proof -
  have len: "length (cells A ! i) = ncols A"
    using assms by (simp add: wf_array_def list_all_iff)
  have "cells (slice_cols A s e) ! i = take (e - s) (drop s (cells A ! i))"
    using assms by (simp add: slice_cols_def Let_def min_def wf_array_def)
  then show ?thesis
    using assms len by (simp add: item_def)
qed

lemma cols_of_slice_cols:
  assumes "wf_array A" and "s \<le> e" and "e \<le> ncols A"
  shows "cols_of (slice_cols A s e) = take (e - s) (drop s (cols_of A))"
proof -
  have c: "column (slice_cols A s e) j = column A (s + j)" if "j < e - s" for j
    using that assms by (simp add: column_def slice_cols_shape item_slice_cols)
  have "cols_of (slice_cols A s e) = map (\<lambda>j. column A (s + j)) [0..<e - s]"
    using c assms by (simp add: cols_of_def slice_cols_shape)
  also have "\<dots> = map (column A) (map (\<lambda>j. j + s) [0..<e - s])"
    by (simp add: add.commute)
  also have "map (\<lambda>j. j + s) [0..<e - s] = [s..<e]"
    using assms by (simp add: map_add_upt)
  also have "[s..<e] = take (e - s) (drop s [0..<ncols A])"
    using assms by simp
  finally show ?thesis
    by (simp add: cols_of_def take_map drop_map)
qed

lemma batches_cover:
  assumes "wf_array A" and "0 < b"
  shows "concat (map (\<lambda>n. cols_of (slice_cols A (n * b) ((n + 1) * b))) [0..<ncols A div b]) @
         (if ncols A mod b \<noteq> 0 then cols_of (slice_cols A (ncols A div b * b) (ncols A)) else [])
         = cols_of A"
proof -
  let ?c = "ncols A" and ?k = "ncols A div b"
  have kb: "?k * b \<le> ?c" by simp
  have full: "cols_of (slice_cols A (n * b) ((n + 1) * b)) = take b (drop (n * b) (cols_of A))"
    if "n < ?k" for n
  proof -
    have "(n + 1) * b \<le> ?k * b" using that by (intro mult_le_mono1) simp
    then have "(n + 1) * b \<le> ?c" using kb by linarith
    then show ?thesis
      using cols_of_slice_cols [OF assms(1), of "n * b" "(n + 1) * b"] by simp
  qed
  have "map (\<lambda>n. cols_of (slice_cols A (n * b) ((n + 1) * b))) [0..<?k] =
        map (\<lambda>n. take b (drop (n * b) (cols_of A))) [0..<?k]"
    using full by simp
  then have c: "concat (map (\<lambda>n. cols_of (slice_cols A (n * b) ((n + 1) * b))) [0..<?k]) =
        take (?k * b) (cols_of A)"
    by (simp only: chunks_concat)
  have last: "cols_of (slice_cols A (?k * b) ?c) = drop (?k * b) (cols_of A)"
    using cols_of_slice_cols [OF assms(1) kb order_refl] by simp
  show ?thesis
  proof (cases "?c mod b = 0")
    case True
    then have "?k * b = ?c" by auto
    then show ?thesis using c True by simp
  next
    case False
    then show ?thesis using c last by simp
  qed
qed

lemma map_nth_upt: "map (\<lambda>j. f (p ! j)) [0..<length p] = map f p"
  by (rule nth_equalityI) simp_all

lemma column_build: "j < c \<Longrightarrow> column (build r c f) j = map (\<lambda>i. f i j) [0..<r]"
  by (simp add: column_def)

lemma cols_of_shuffled_X:
  "cols_of (shuffled_X_spec X p) = map (\<lambda>c. column (df_values X) (pos_of (columns X) c)) p"
proof -
  have "cols_of (shuffled_X_spec X p) =
      map (\<lambda>j. column (df_values X) (map (pos_of (columns X)) p ! j)) [0..<length p]"
    by (simp add: cols_of_def shuffled_X_spec_def take_cols_def column_build)
      (simp add: column_def)
  also have "\<dots> = map (\<lambda>j. (\<lambda>c. column (df_values X) (pos_of (columns X) c)) (p ! j)) [0..<length p]"
    by simp
  also have "\<dots> = map (\<lambda>c. column (df_values X) (pos_of (columns X) c)) p"
    by (rule map_nth_upt)
  finally show ?thesis .
qed

lemma cols_of_shuffled_y:
  "cols_of (shuffled_y_spec y p) = map (\<lambda>c. [sr_values y ! pos_of (index y) c]) p"
proof -
  have "cols_of (shuffled_y_spec y p) =
      map (\<lambda>j. (\<lambda>c. [sr_values y ! pos_of (index y) c]) (p ! j)) [0..<length p]"
    by (simp add: cols_of_def shuffled_y_spec_def column_build)
  also have "\<dots> = map (\<lambda>c. [sr_values y ! pos_of (index y) c]) p"
    by (rule map_nth_upt)
  finally show ?thesis .
qed

lemma shuffled_shapes [simp]:
  "wf_array (shuffled_X_spec X p)" "nrows (shuffled_X_spec X p) = nrows (df_values X)"
  "ncols (shuffled_X_spec X p) = length p"
  "wf_array (shuffled_y_spec y p)" "nrows (shuffled_y_spec y p) = 1"
  "ncols (shuffled_y_spec y p) = length p"
  by (simp_all add: shuffled_X_spec_def shuffled_y_spec_def take_cols_def)

lemma init_mini_batches_value:
  assumes "length (columns X) = ncols (df_values X)" and "distinct (columns X)"
    and "distinct (index y)" and "set (columns X) \<subseteq> set (index y)"
    and "mset (np_perm g (np_pos g) (columns X)) = mset (columns X)"
    and "0 < mb_size"
  shows "init_mini_batches X y mb_size g =
     (Inr (batches_spec (shuffled_X_spec X (np_perm g (np_pos g) (columns X)))
            (shuffled_y_spec y (np_perm g (np_pos g) (columns X))) (nat mb_size)),
      g\<lparr>np_pos := np_pos g + 1\<rparr>)"
proof -
  let ?p = "np_perm g (np_pos g) (columns X)"
  let ?m = "ncols (df_values X)"
  let ?b = "nat mb_size"
  have sp: "set ?p = set (columns X)" using assms(5) by (rule mset_eq_setD)
  have lp: "length ?p = ?m" using assms(5) assms(1) by (metis mset_eq_length)
  have lx: "loc (columns X) ?p = Inr (map (pos_of (columns X)) ?p)"
    using assms(2) sp by (intro loc_distinct) simp_all
  have ly: "loc (index y) ?p = Inr (map (pos_of (index y)) ?p)"
    using assms(3,4) sp by (intro loc_distinct) simp_all
  have "build 1 ?m (\<lambda>i j. concat [map (\<lambda>j. sr_values y ! j) (map (pos_of (index y)) ?p)] ! (i * ?m + j))
      = shuffled_y_spec y ?p"
    unfolding shuffled_y_spec_def lp using lp by (intro build_cong) simp
  then have rs: "reshape (NDArray 1 (length (map (pos_of (index y)) ?p))
                   [map (\<lambda>j. sr_values y ! j) (map (pos_of (index y)) ?p)]) (1, ?m)
      = Inr (shuffled_y_spec y ?p)"
    using lp by (simp add: reshape_def)
  have b: "mb_size = int ?b" "0 < ?b" using assms(6) by simp_all
  have nb: "nat (num_batches_of ?m mb_size) = ?m div ?b"
    by (subst b(1)) (simp add: num_batches_of_def zdiv_int [symmetric] del: int_nat_eq)
  have nbm: "nat (num_batches_of ?m mb_size * mb_size) = ?m div ?b * ?b"
    by (subst (1 2) b(1))
      (simp add: num_batches_of_def zdiv_int [symmetric] nat_mult_distrib del: int_nat_eq)
  have md: "(int ?m mod mb_size \<noteq> 0) = (?m mod ?b \<noteq> 0)"
    by (subst b(1)) (simp add: zmod_int [symmetric] del: int_nat_eq)
  show ?thesis
    using assms(6) rs
    by (simp add: init_mini_batches_def random_permutation_def Let_def lx ly nb nbm md
        batches_spec_def lp shuffled_X_spec_def [symmetric])
qed

lemma batches_spec_cover:
  assumes "wf_array SX" and "wf_array Sy" and "ncols Sy = ncols SX" and "0 < b"
  shows "concat (map (\<lambda>B. cols_of (fst B)) (batches_spec SX Sy b)) = cols_of SX"
    and "concat (map (\<lambda>B. cols_of (snd B)) (batches_spec SX Sy b)) = cols_of Sy"
proof -
  show "concat (map (\<lambda>B. cols_of (fst B)) (batches_spec SX Sy b)) = cols_of SX"
    using batches_cover [OF assms(1,4)]
    by (simp add: batches_spec_def comp_def split: if_splits)
  show "concat (map (\<lambda>B. cols_of (snd B)) (batches_spec SX Sy b)) = cols_of Sy"
    using batches_cover [OF assms(2,4)] assms(3)
    by (simp add: batches_spec_def comp_def split: if_splits)
qed

lemma batches_spec_length:
  "length (batches_spec SX Sy b) = ncols SX div b + (if ncols SX mod b = 0 then 0 else 1)"
  by (simp add: batches_spec_def)

lemma batches_spec_nth:
  assumes "wf_array SX" and "wf_array Sy" and "ncols Sy = ncols SX" and "0 < b"
    and "k < length (batches_spec SX Sy b)"
  shows "wf_array (fst (batches_spec SX Sy b ! k)) \<and> wf_array (snd (batches_spec SX Sy b ! k)) \<and>
     nrows (fst (batches_spec SX Sy b ! k)) = nrows SX \<and>
     nrows (snd (batches_spec SX Sy b ! k)) = nrows Sy \<and>
     ncols (fst (batches_spec SX Sy b ! k)) = (if k < ncols SX div b then b else ncols SX mod b) \<and>
     ncols (snd (batches_spec SX Sy b ! k)) = ncols (fst (batches_spec SX Sy b ! k))"
proof (cases "k < ncols SX div b")
  case True
  have "(k + 1) * b \<le> ncols SX div b * b" using True by (intro mult_le_mono1) simp
  then have le: "k * b \<le> (k + 1) * b" "(k + 1) * b \<le> ncols SX"
    by (simp, metis div_times_less_eq_dividend le_trans)
  have "batches_spec SX Sy b ! k =
      (slice_cols SX (k * b) ((k + 1) * b), slice_cols Sy (k * b) ((k + 1) * b))"
    using True by (simp add: batches_spec_def nth_append)
  moreover have "(k + 1) * b - k * b = b" by simp
  ultimately show ?thesis
    using True le assms
    by (simp add: slice_cols_shape wf_slice_cols del: One_nat_def)
next
  case False
  then have k: "k = ncols SX div b" "ncols SX mod b \<noteq> 0"
    using assms(5) by (auto simp: batches_spec_length split: if_splits)
  have le: "ncols SX div b * b \<le> ncols SX" by simp
  have "batches_spec SX Sy b ! k =
      (slice_cols SX (ncols SX div b * b) (ncols SX),
       slice_cols Sy (ncols SX div b * b) (ncols Sy))"
    using k by (simp add: batches_spec_def nth_append)
  moreover have "ncols SX - ncols SX div b * b = ncols SX mod b"
    by (simp add: minus_div_mult_eq_mod)
  ultimately show ?thesis
    using k le assms by (simp add: slice_cols_shape wf_slice_cols)
qed

text \<open>
  C5, amended. Let the \<open>m\<close> columns of the data frame \<open>X\<close> carry pairwise distinct labels, let
  the series \<open>y\<close> be indexed by those same labels in any order, let the library's permutation
  be a permutation of the labels, and let the batch size be positive. Then the partition
  returns batches whose columns, concatenated, are the columns of \<open>X\<close> in the order of that one
  permutation, each label once, and whose labels, concatenated, are the entries of \<open>y\<close> for the
  same labels in the same order. There are \<open>m div batchSize\<close> batches of exactly \<open>batchSize\<close>
  columns, followed, when the remainder is not zero, by one batch of \<open>m mod batchSize\<close>
  columns.
\<close>

theorem init_mini_batches_partition:
  assumes "length (columns X) = ncols (df_values X)" and "distinct (columns X)"
    and "mset (index y) = mset (columns X)"
    and "mset (np_perm g (np_pos g) (columns X)) = mset (columns X)"
    and "0 < mb_size"
  shows "\<exists>batches.
     init_mini_batches X y mb_size g = (Inr batches, g\<lparr>np_pos := np_pos g + 1\<rparr>) \<and>
     distinct (np_perm g (np_pos g) (columns X)) \<and>
     set (np_perm g (np_pos g) (columns X)) = set (columns X) \<and>
     concat (map (\<lambda>B. cols_of (fst B)) batches) =
       map (\<lambda>c. column (df_values X) (pos_of (columns X) c)) (np_perm g (np_pos g) (columns X)) \<and>
     concat (map (\<lambda>B. cols_of (snd B)) batches) =
       map (\<lambda>c. [sr_values y ! pos_of (index y) c]) (np_perm g (np_pos g) (columns X)) \<and>
     length batches = ncols (df_values X) div nat mb_size +
       (if ncols (df_values X) mod nat mb_size = 0 then 0 else 1) \<and>
     (\<forall>k<length batches.
        wf_array (fst (batches ! k)) \<and> wf_array (snd (batches ! k)) \<and>
        nrows (fst (batches ! k)) = nrows (df_values X) \<and> nrows (snd (batches ! k)) = 1 \<and>
        ncols (fst (batches ! k)) =
          (if k < ncols (df_values X) div nat mb_size then nat mb_size
           else ncols (df_values X) mod nat mb_size) \<and>
        ncols (snd (batches ! k)) = ncols (fst (batches ! k)))"
proof -
  let ?p = "np_perm g (np_pos g) (columns X)"
  let ?SX = "shuffled_X_spec X ?p" and ?Sy = "shuffled_y_spec y ?p"
  let ?b = "nat mb_size"
  let ?B = "batches_spec ?SX ?Sy ?b"
  have lp: "length ?p = ncols (df_values X)" using assms(1,4) by (metis mset_eq_length)
  have dp: "distinct ?p" using assms(2,4) by (metis mset_eq_imp_distinct_iff)
  have sp: "set ?p = set (columns X)" using assms(4) by (rule mset_eq_setD)
  have dy: "distinct (index y)" using assms(2,3) by (metis mset_eq_imp_distinct_iff)
  have sy: "set (columns X) \<subseteq> set (index y)" using assms(3) by (metis mset_eq_setD order_refl)
  have b: "0 < ?b" using assms(5) by simp
  have w: "wf_array ?SX" "wf_array ?Sy" "ncols ?Sy = ncols ?SX" by simp_all
  have run: "init_mini_batches X y mb_size g = (Inr ?B, g\<lparr>np_pos := np_pos g + 1\<rparr>)"
    by (rule init_mini_batches_value [OF assms(1,2) dy sy assms(4,5)])
  have c1: "concat (map (\<lambda>B. cols_of (fst B)) ?B) =
       map (\<lambda>c. column (df_values X) (pos_of (columns X) c)) ?p"
    using batches_spec_cover(1) [OF w b] by (simp only: cols_of_shuffled_X)
  have c2: "concat (map (\<lambda>B. cols_of (snd B)) ?B) =
       map (\<lambda>c. [sr_values y ! pos_of (index y) c]) ?p"
    using batches_spec_cover(2) [OF w b] by (simp only: cols_of_shuffled_y)
  have len: "length ?B = ncols (df_values X) div ?b +
       (if ncols (df_values X) mod ?b = 0 then 0 else 1)"
    by (simp add: batches_spec_length lp)
  have each: "\<forall>k<length ?B.
        wf_array (fst (?B ! k)) \<and> wf_array (snd (?B ! k)) \<and>
        nrows (fst (?B ! k)) = nrows (df_values X) \<and> nrows (snd (?B ! k)) = 1 \<and>
        ncols (fst (?B ! k)) =
          (if k < ncols (df_values X) div ?b then ?b else ncols (df_values X) mod ?b) \<and>
        ncols (snd (?B ! k)) = ncols (fst (?B ! k))"
  proof (intro allI impI)
    fix k assume "k < length ?B"
    from batches_spec_nth [OF w b this] show
      "wf_array (fst (?B ! k)) \<and> wf_array (snd (?B ! k)) \<and>
        nrows (fst (?B ! k)) = nrows (df_values X) \<and> nrows (snd (?B ! k)) = 1 \<and>
        ncols (fst (?B ! k)) =
          (if k < ncols (df_values X) div ?b then ?b else ncols (df_values X) mod ?b) \<and>
        ncols (snd (?B ! k)) = ncols (fst (?B ! k))"
      by (simp add: lp)
  qed
  show ?thesis
    using run dp sp c1 c2 len each by blast
qed

text \<open>Three examples in batches of two, under the permutation that reverses the labels.\<close>

theorem init_mini_batches_partition_witness:
  "\<exists>batches. init_mini_batches frame3 series3 2 rng0 = (Inr batches, rng0\<lparr>np_pos := 1\<rparr>) \<and>
     concat (map (\<lambda>B. cols_of (fst B)) batches) = [[3, 6], [2, 5], [1, 4]] \<and>
     concat (map (\<lambda>B. cols_of (snd B)) batches) = [[1], [0], [1]] \<and>
     length batches = 2 \<and> ncols (fst (batches ! 0)) = 2 \<and> ncols (fst (batches ! 1)) = 1"
proof -
  have h: "length (columns frame3) = ncols (df_values frame3)" "distinct (columns frame3)"
    "mset (index series3) = mset (columns frame3)"
    "mset (np_perm rng0 (np_pos rng0) (columns frame3)) = mset (columns frame3)"
    "0 < (2::int)"
    by (simp_all add: frame3_def series3_def rng0_def)
  have v: "np_perm rng0 (np_pos rng0) (columns frame3) = [30, 20, 10]"
    "np_pos rng0 = 0" "ncols (df_values frame3) = 3"
    by (simp_all add: frame3_def rng0_def)
  have c: "column (df_values frame3) (pos_of (columns frame3) 30) = [3, 6]"
    "column (df_values frame3) (pos_of (columns frame3) 20) = [2, 5]"
    "column (df_values frame3) (pos_of (columns frame3) 10) = [1, 4]"
    "sr_values series3 ! pos_of (index series3) 30 = 1"
    "sr_values series3 ! pos_of (index series3) 20 = 0"
    "sr_values series3 ! pos_of (index series3) 10 = 1"
    by (simp_all add: frame3_def series3_def column_def pos_of_def item_def eval_nat_numeral)
  from init_mini_batches_partition [OF h] obtain batches where
    r: "init_mini_batches frame3 series3 2 rng0 = (Inr batches, rng0\<lparr>np_pos := np_pos rng0 + 1\<rparr>)"
    "concat (map (\<lambda>B. cols_of (fst B)) batches) =
       map (\<lambda>c. column (df_values frame3) (pos_of (columns frame3) c))
         (np_perm rng0 (np_pos rng0) (columns frame3))"
    "concat (map (\<lambda>B. cols_of (snd B)) batches) =
       map (\<lambda>c. [sr_values series3 ! pos_of (index series3) c])
         (np_perm rng0 (np_pos rng0) (columns frame3))"
    "length batches = ncols (df_values frame3) div nat 2 +
       (if ncols (df_values frame3) mod nat 2 = 0 then 0 else 1)"
    "\<forall>k<length batches.
        ncols (fst (batches ! k)) =
          (if k < ncols (df_values frame3) div nat 2 then nat 2
           else ncols (df_values frame3) mod nat 2)"
    by blast
  have l: "length batches = 2" using r(4) by (simp add: v)
  have "ncols (fst (batches ! 0)) = 2" "ncols (fst (batches ! 1)) = 1"
    using r(5) l by (simp_all add: v)
  then show ?thesis
    using r(1,2,3) l by (simp add: v v(1) [unfolded v(2)] c)
qed

lemma upts3: "[0..<1] = [0::nat]" "[0..<3] = [0, 1, 2::nat]" "[0..<5] = [0, 1, 2, 3, 4::nat]"
  by (simp_all add: upt_rec)

text \<open>
  C5, as stated: for every pair \<open>X\<close>, \<open>Y\<close> and every positive batch size. With the label 10 on
  two of the three columns of \<open>X\<close>, selecting by label takes both columns each time the label
  comes up: the batches hold five columns for three examples, and the last batch has three
  columns of \<open>X\<close> against one label. With a column label that the index of \<open>y\<close> does not hold,
  the selection raises.
\<close>

theorem init_mini_batches_partition_counterexample:
  "0 < (2::int) \<and> ncols (df_values frame_dup) = 3 \<and>
   init_mini_batches frame_dup series_plain 2 rng0 =
     (Inr [(NDArray 1 2 [[3, 1]], NDArray 1 2 [[0, 1]]),
           (NDArray 1 3 [[2, 1, 2]], NDArray 1 1 [[1]])], rng0\<lparr>np_pos := 1\<rparr>) \<and>
   init_mini_batches frame3 series_other 2 rng0 = (Inl LabelKeyError, rng0\<lparr>np_pos := 1\<rparr>)"
  by (simp add: init_mini_batches_def random_permutation_def frame_dup_def series_plain_def
      series_other_def frame3_def rng0_def loc_def positions_def take_cols_def reshape_def
      num_batches_of_def slice_cols_def build_def item_def Let_def upts3)

section \<open>Training\<close>

text \<open>
  Neither initialisation, nor the dropout masks, nor a batch, nor an epoch moves the generator
  of permutations; \<open>init_mini_batches\<close> moves it by one position, whether it returns or
  raises.
\<close>

lemma randn_np: "randn r c g = Inr (R, g') \<Longrightarrow> np_pos g' = np_pos g \<and> np_perm g' = np_perm g"
  by (auto simp: randn_def split: if_splits)

lemma rand_np: "rand r c g = Inr (R, g') \<Longrightarrow> np_pos g' = np_pos g \<and> np_perm g' = np_perm g"
  by (auto simp: rand_def split: if_splits)

lemma bnd_InrE:
  assumes "bnd m f = Inr y"
  obtains x where "m = Inr x" and "f x = Inr y"
  using assms by (cases m) simp_all

lemma init_params_loop_np:
  "init_params_loop n ls params g = Inr (params', g') \<Longrightarrow>
   np_pos g' = np_pos g \<and> np_perm g' = np_perm g"
proof (induction ls arbitrary: params g)
  case Nil
  then show ?case by simp
next
  case (Cons l ls)
  from Cons.prems obtain nl np R g1 Zb where
    r: "randn nl np g = Inr (R, g1)"
    and rest: "init_params_loop n ls
         (dict_set (dict_set params (Key ''W'' l) (smap (\<lambda>x. x * (1 / 1000)) R)) (Key ''b'' l) Zb)
         g1 = Inr (params', g')"
    by (auto elim!: bnd_InrE)
  show ?case using Cons.IH [OF rest] randn_np [OF r] by simp
qed

lemma init_dropout_loop_np:
  "init_dropout_loop self keep_prob m ls D g = Inr (D', g') \<Longrightarrow>
   np_pos g' = np_pos g \<and> np_perm g' = np_perm g"
proof (induction ls arbitrary: D g)
  case Nil
  then show ?case by simp
next
  case (Cons l ls)
  from Cons.prems obtain nl U g1 p where
    r: "rand nl m g = Inr (U, g1)"
    and rest: "init_dropout_loop self keep_prob m ls
         (dict_set D (Key [] l) (smap (\<lambda>u. u < p) U)) g1 = Inr (D', g')"
    by (auto elim!: bnd_InrE)
  show ?case using Cons.IH [OF rest] rand_np [OF r] by simp
qed

lemma train_batch_np:
  assumes "train_batch env self mini_batch st = Inr st'"
  shows "np_pos (ts_rng st') = np_pos (ts_rng st) \<and> np_perm (ts_rng st') = np_perm (ts_rng st)"
proof -
  obtain Xb Yb where mb: "mini_batch = (Xb, Yb)" by (cases mini_batch)
  from assms obtain kp D g1 where
    "init_dropout_loop self kp (ncols Xb) [0..<length (layer_dims self)] [] (ts_rng st) = Inr (D, g1)"
    and "ts_rng st' = g1"
    unfolding train_batch_def mb init_dropout_def
    by (auto elim!: bnd_InrE simp: Let_def)
  then show ?thesis using init_dropout_loop_np by blast
qed

lemma batch_loop_np:
  "batch_loop env self mbs st = Inr st' \<Longrightarrow>
   np_pos (ts_rng st') = np_pos (ts_rng st) \<and> np_perm (ts_rng st') = np_perm (ts_rng st)"
proof (induction mbs arbitrary: st)
  case Nil
  then show ?case by simp
next
  case (Cons mb mbs)
  from Cons.prems obtain st1 where a: "train_batch env self mb st = Inr st1"
    and b: "batch_loop env self mbs st1 = Inr st'"
    by (auto elim!: bnd_InrE)
  show ?case using Cons.IH [OF b] train_batch_np [OF a] by simp
qed

lemma epoch_loop_np:
  "epoch_loop env self mini_batches es st = Inr st' \<Longrightarrow>
   np_pos (ts_rng st') = np_pos (ts_rng st) \<and> np_perm (ts_rng st') = np_perm (ts_rng st)"
proof (induction es arbitrary: st)
  case Nil
  then show ?case by simp
next
  case (Cons i es)
  from Cons.prems obtain st1 where a: "batch_loop env self mini_batches st = Inr st1"
    and r: "bnd (if print_cost self \<and> i mod 10 = 0
          then (case ts_cost st1 of None \<Rightarrow> Inl (NameError ''cost'')
                | Some cost \<Rightarrow> Inr (st1\<lparr>ts_costs := ts_costs st1 @ [cost]\<rparr>))
          else Inr st1) (\<lambda>st2. epoch_loop env self mini_batches es st2) = Inr st'"
    by (auto elim!: bnd_InrE)
  from r obtain st2 where s2: "(if print_cost self \<and> i mod 10 = 0
          then (case ts_cost st1 of None \<Rightarrow> Inl (NameError ''cost'')
                | Some cost \<Rightarrow> Inr (st1\<lparr>ts_costs := ts_costs st1 @ [cost]\<rparr>))
          else Inr st1) = Inr st2"
    and b: "epoch_loop env self mini_batches es st2 = Inr st'"
    by (rule bnd_InrE)
  have c: "ts_rng st2 = ts_rng st1"
    using s2 by (auto split: if_splits option.splits)
  show ?case using Cons.IH [OF b] batch_loop_np [OF a] c by simp
qed


lemma init_mini_batches_np:
  "snd (init_mini_batches X y mb_size g) = g\<lparr>np_pos := np_pos g + 1\<rparr>"
  by (simp add: init_mini_batches_def random_permutation_def Let_def)

lemma train_batch_costs:
  "train_batch env self mb (st\<lparr>ts_costs := c\<rparr>) =
     (case train_batch env self mb st of Inl e \<Rightarrow> Inl e | Inr s \<Rightarrow> Inr (s\<lparr>ts_costs := c\<rparr>))"
  by (cases mb) (simp add: train_batch_def bnd_def split: sum.splits option.splits prod.splits)

lemma batch_loop_costs:
  "batch_loop env self mbs (st\<lparr>ts_costs := c\<rparr>) =
     (case batch_loop env self mbs st of Inl e \<Rightarrow> Inl e | Inr s \<Rightarrow> Inr (s\<lparr>ts_costs := c\<rparr>))"
proof (induction mbs arbitrary: st)
  case Nil
  then show ?case by simp
next
  case (Cons mb mbs)
  show ?case
    by (cases "train_batch env self mb st") (simp_all add: train_batch_costs Cons.IH)
qed

lemma batch_loop_append:
  "batch_loop env self (xs @ ys) st = bnd (batch_loop env self xs st) (batch_loop env self ys)"
proof (induction xs arbitrary: st)
  case Nil
  then show ?case by simp
next
  case (Cons x xs)
  show ?case
    by (cases "train_batch env self x st") (simp_all add: Cons.IH)
qed

lemma train_batch_cost: "train_batch env self mb st = Inr st' \<Longrightarrow> ts_cost st' \<noteq> None"
  by (cases mb) (auto simp: train_batch_def elim!: bnd_InrE)

lemma batch_loop_cost:
  "batch_loop env self mbs st = Inr st' \<Longrightarrow> mbs \<noteq> [] \<or> ts_cost st \<noteq> None \<Longrightarrow>
   ts_cost st' \<noteq> None"
proof (induction mbs arbitrary: st)
  case Nil
  then show ?case by simp
next
  case (Cons mb mbs)
  from Cons.prems(1) obtain st1 where a: "train_batch env self mb st = Inr st1"
    and b: "batch_loop env self mbs st1 = Inr st'"
    by (auto elim!: bnd_InrE)
  show ?case using Cons.IH [OF b] train_batch_cost [OF a] by simp
qed

lemma bnd_costs:
  assumes "\<And>s c. f (s\<lparr>ts_costs := c\<rparr>) = f s"
  shows "bnd (case r of Inl e \<Rightarrow> Inl e | Inr s \<Rightarrow> Inr (s\<lparr>ts_costs := c\<rparr>)) f = bnd r f"
  using assms by (cases r) simp_all

lemma epoch_loop_replicate:
  assumes f: "\<And>s c. f (s\<lparr>ts_costs := c\<rparr>) = f s"
    and ok: "\<not> print_cost self \<or> mbs \<noteq> [] \<or> ts_cost st \<noteq> None \<or> (\<forall>i\<in>set es. i mod 10 \<noteq> 0)"
  shows "bnd (epoch_loop env self mbs es st) f =
         bnd (batch_loop env self (concat (replicate (length es) mbs)) st) f"
  using ok
proof (induction es arbitrary: st)
  case Nil
  then show ?case by simp
next
  case (Cons i es)
  let ?C = "concat (replicate (length es) mbs)"
  show ?case
  proof (cases "batch_loop env self mbs st")
    case (Inl e)
    then show ?thesis by (simp add: batch_loop_append)
  next
    case (Inr st1)
    have rhs: "bnd (batch_loop env self (concat (replicate (length (i # es)) mbs)) st) f =
        bnd (batch_loop env self ?C st1) f"
      using Inr by (simp add: batch_loop_append)
    have c1: "mbs \<noteq> [] \<or> ts_cost st \<noteq> None \<Longrightarrow> ts_cost st1 \<noteq> None"
      using batch_loop_cost [OF Inr] by blast
    have same: "mbs = [] \<Longrightarrow> st1 = st" using Inr by simp
    have ok1: "\<not> print_cost self \<or> mbs \<noteq> [] \<or> ts_cost st1 \<noteq> None \<or> (\<forall>i\<in>set es. i mod 10 \<noteq> 0)"
      using Cons.prems same by auto
    show ?thesis
    proof (cases "print_cost self \<and> i mod 10 = 0")
      case False
      then have "bnd (epoch_loop env self mbs (i # es) st) f = bnd (epoch_loop env self mbs es st1) f"
        using Inr by auto
      then show ?thesis using Cons.IH [OF ok1] rhs by simp
    next
      case True
      then have "ts_cost st1 \<noteq> None" using Cons.prems c1 same by auto
      then obtain cost where cost: "ts_cost st1 = Some cost" by auto
      let ?st2 = "st1\<lparr>ts_costs := ts_costs st1 @ [cost]\<rparr>"
      have ok2: "\<not> print_cost self \<or> mbs \<noteq> [] \<or> ts_cost ?st2 \<noteq> None \<or>
          (\<forall>i\<in>set es. i mod 10 \<noteq> 0)"
        using cost by simp
      have "bnd (epoch_loop env self mbs (i # es) st) f = bnd (epoch_loop env self mbs es ?st2) f"
        using Inr True cost by simp
      also have "\<dots> = bnd (batch_loop env self ?C ?st2) f"
        by (rule Cons.IH [OF ok2])
      also have "\<dots> = bnd (batch_loop env self ?C st1) f"
        by (simp only: batch_loop_costs bnd_costs [of f, OF f])
      finally show ?thesis using rhs by simp
    qed
  qed
qed

lemma epoch_loop_no_cost:
  assumes "print_cost self" and "0 < n" and "ts_cost st = None"
  shows "epoch_loop env self [] [0..<n] st = Inl (NameError ''cost'')"
proof -
  have "[0..<n] = 0 # [1..<n]" using assms(2) by (simp add: upt_rec)
  then show ?thesis using assms by simp
qed

lemma upts: "[1..<2] = [1::nat]" "[0..<2] = [0, 1::nat]" "[0..<1] = [0::nat]"
  by (simp_all add: upt_rec)

lemma init_params_run: "init_params [1, 1] rng0 = Inr (params_zero, rng0\<lparr>cp_pos := 1\<rparr>)"
  by (simp add: init_params_def list_get_def randn_def zeros_int_def zeros_def rng0_def
      params_zero_def build_def smap_def upts)

lemma init_v_run: "init_v [1, 1] = Inr v_zero"
  by (simp add: init_v_def list_get_def zeros_int_def zeros_def v_zero_def build_def upts)

lemma mini_batches_run: "init_mini_batches frame2 series2 1 (rng0\<lparr>cp_pos := 1\<rparr>) =
    (Inr [(NDArray 1 1 [[0]], NDArray 1 1 [[0]]), (NDArray 1 1 [[0]], NDArray 1 1 [[1]])],
     rng0\<lparr>cp_pos := 1, np_pos := 1\<rparr>)"
  by (simp add: init_mini_batches_def random_permutation_def frame2_def series2_def rng0_def
      loc_def positions_def take_cols_def reshape_def num_batches_of_def slice_cols_def
      build_def item_def Let_def upts)

lemmas train_eval = train_batch_def init_dropout_def L_model_forward_def compute_cost_def
  cross_entropy_sum_def L_model_backward_def update_params_def activation_back_def
  linear_back_def sigmoid_backward_def sigmoid_derivative_def rand_def bop_inplace_def
  sum_all_def dict_get_def list_get_def activation_forward_def linear_forward_def
  dropout_scale_def dot_def bop_def bdim_def build_def bitem_def item_def shape_def
  sigmoid_def smap_def transpose_arr_def sum_axis1_def reshape_def

lemma train_batch_one: "train_batch env0 net2e (NDArray 1 1 [[0]], NDArray 1 1 [[1]]) (st_at d c k) =
    Inr (st_at (- 1 / 2) (Some (ln 2)) (k + 2))"
  by (simp add: st_at_def env0_def net2e_def NeuralNet_init_def params_zero_def rng0_def
      train_eval upts ln_div)

lemma train_batch_zero: "train_batch env0 net2e (NDArray 1 1 [[0]], NDArray 1 1 [[0]]) (st_at d c k) =
    Inr (st_at (1 / 2) (Some (ln 2)) (k + 2))"
  by (simp add: st_at_def env0_def net2e_def NeuralNet_init_def params_zero_def rng0_def
      train_eval upts ln_div)

lemma net2e_fields:
  "layer_dims net2e = [1, 1]" "nat (num_epochs net2e) = 2" "\<not> print_cost net2e"
  "num_epochs net2e = 2"
  by (simp_all add: net2e_def NeuralNet_init_def)

lemma epochs2: "[0..<nat (num_epochs net2e)] = [0, 1]"
  by (simp add: net2e_def NeuralNet_init_def upt_rec)

lemma shipped_epochs:
  "epoch_loop module_as_shipped net2e (mb # mbs) [0, 1] st = Inl (NameError ''keep_prob'')"
  by (cases mb) (simp add: train_batch_def module_as_shipped_def)

lemma none_epochs:
  "epoch_loop env net2e [] [0, 1] st = Inr st"
  by (simp add: net2e_def NeuralNet_init_def)

lemma st_start:
  "\<lparr>ts_parameters = params_zero, ts_v = v_zero, ts_cost = None, ts_costs = [],
    ts_rng = rng0\<lparr>cp_pos := 1, np_pos := 1\<rparr>\<rparr> = st_at 0 None 1"
  by (simp add: st_at_def v_zero_def)

lemma four_batches:
  "batch_loop env0 net2e
     [(NDArray 1 1 [[0]], NDArray 1 1 [[0]]), (NDArray 1 1 [[0]], NDArray 1 1 [[1]]),
      (NDArray 1 1 [[0]], NDArray 1 1 [[0]]), (NDArray 1 1 [[0]], NDArray 1 1 [[1]])]
     (st_at 0 None 1) = Inr (st_at (- 1 / 2) (Some (ln 2)) 9)"
  by (simp only: batch_loop.simps train_batch_one train_batch_zero bnd_Inr) (simp add: eval_nat_numeral)

lemma epochs_run:
  "epoch_loop env0 net2e
     [(NDArray 1 1 [[0]], NDArray 1 1 [[0]]), (NDArray 1 1 [[0]], NDArray 1 1 [[1]])]
     [0, 1] (st_at 0 None 1) = Inr (st_at (- 1 / 2) (Some (ln 2)) 9)"
  by (simp only: epoch_loop.simps batch_loop.simps train_batch_one train_batch_zero bnd_Inr net2e_fields simp_thms if_False)
    (simp add: eval_nat_numeral)

lemma st_end:
  "ts_parameters (st_at (- 1 / 2) (Some (ln 2)) 9) = params_zero"
  "ts_rng (st_at (- 1 / 2) (Some (ln 2)) 9) = rng_after"
  by (simp_all add: st_at_def rng_after_def)

lemma fit_run:
  "fit env0 net2e frame2 series2 1 rng0 =
     (Inr (params_zero, net2e\<lparr>trained_params := params_zero, fitted := True\<rparr>, rng_after), 1)"
proof -
  have p: "g_plt env0" by (simp add: env0_def)
  show ?thesis
    unfolding fit_def epochs2 net2e_fields(1,3) init_params_run init_v_run mini_batches_run sum.case prod.case st_start epochs_run
      bnd_Inr st_end
    using p by (simp add: rng0_def)
qed

lemma shipped_batch:
  "train_batch module_as_shipped self mb st = Inl (NameError ''keep_prob'')"
  by (cases mb) (simp add: train_batch_def module_as_shipped_def)

lemma fit_shipped:
  "fit module_as_shipped net2e frame2 series2 1 rng0 = (Inl (NameError ''keep_prob''), 1)"
  unfolding fit_def epochs2 net2e_fields(1,3) init_params_run init_v_run mini_batches_run sum.case prod.case shipped_epochs
  by (simp add: rng0_def)

lemma mini_batches_none: "init_mini_batches frame_none series_none 1 (rng0\<lparr>cp_pos := 1\<rparr>) =
    (Inr [], rng0\<lparr>cp_pos := 1, np_pos := 1\<rparr>)"
  by (simp add: init_mini_batches_def random_permutation_def frame_none_def series_none_def
      rng0_def loc_def take_cols_def reshape_def num_batches_of_def build_def Let_def upts)

lemma fit_shipped_none:
  "fit module_as_shipped net2e frame_none series_none 1 rng0 = (Inl (NameError ''plt''), 1)"
  unfolding fit_def epochs2 net2e_fields(1,3) init_params_run init_v_run mini_batches_none sum.case prod.case none_epochs
  by (simp add: module_as_shipped_def rng0_def)

lemma mini_batches_fail:
  "fst (init_mini_batches frame3 series_other 2 (rng0\<lparr>cp_pos := 1\<rparr>)) = Inl LabelKeyError"
  by (simp add: init_mini_batches_def random_permutation_def series_other_def frame3_def
      rng0_def loc_def positions_def take_cols_def Let_def)




end
